theory Spec2Isabelle
  imports
    Complex_Main
    "HOL-Library.Word"
    "HOL-Library.Multiset"
    "HOL-Library.Char_ord"
    "HOL-Library.List_Lexorder"
begin

section \<open>JavaScript values\<close>

text \<open>
  The prover and the verifier pass the proof around as an untyped value (\<^verbatim>\<open>proof: any\<close>).
  Only its dynamic type, its truthiness and a few property reads are ever inspected, so the
  value is modelled by its constructor. Strings are ASCII character lists; numbers that
  occur (hours, whole currency amounts, hashes) are integers.
\<close>

datatype js_value =
    JUndefined
  | JNull
  | JBool bool
  | JNum int
  | JBigInt int
  | JStr string
  | JArr "js_value list"
  | JObj "(string \<times> js_value) list"

text \<open>\<^verbatim>\<open>!v\<close> is true exactly for the falsy values.\<close>

fun js_truthy :: "js_value \<Rightarrow> bool" where
  "js_truthy JUndefined = False"
| "js_truthy JNull = False"
| "js_truthy (JBool b) = b"
| "js_truthy (JNum n) = (n \<noteq> 0)"
| "js_truthy (JBigInt n) = (n \<noteq> 0)"
| "js_truthy (JStr s) = (s \<noteq> [])"
| "js_truthy (JArr xs) = True"
| "js_truthy (JObj kvs) = True"

fun js_typeof :: "js_value \<Rightarrow> string" where
  "js_typeof JUndefined = ''undefined''"
| "js_typeof JNull = ''object''"
| "js_typeof (JBool b) = ''boolean''"
| "js_typeof (JNum n) = ''number''"
| "js_typeof (JBigInt n) = ''bigint''"
| "js_typeof (JStr s) = ''string''"
| "js_typeof (JArr xs) = ''object''"
| "js_typeof (JObj kvs) = ''object''"

text \<open>A natural number written in decimal, as an array index is when it names a property.\<close>

function show_nat :: "nat \<Rightarrow> string" where
  "show_nat n =
     (if n < 10 then [char_of (48 + n)] else show_nat (n div 10) @ [char_of (48 + n mod 10)])"
  by pat_completeness auto
termination
  by (relation "measure id") auto

section \<open>The prover (ZKPProver)\<close>

record UserRules =
  allowedAddresses :: "string list"
  maxAmount :: int
  allowedHours :: "int \<times> int"

record PaymentPlan =
  toAddress :: string
  amount :: int
  timestamp :: int

text \<open>
  The circuit's input signals, by name. The prover fills them with numbers
  (\<open>int ZKPInput\<close>); inside the circuit they are field elements.
\<close>

record 'a ZKPInput =
  paymentAddress :: 'a
  paymentAmount :: 'a
  paymentTimestamp :: 'a
  allowedAddress1 :: 'a
  allowedAddress2 :: 'a
  allowedAddress3 :: 'a
  in_maxAmount :: 'a
  minHour :: 'a
  maxHour :: 'a

record ZKPResult =
  proof_obj :: js_value
  publicSignals :: "string list"
  isValid :: bool

text \<open>
  What the prover reads from outside itself: the file system (\<^verbatim>\<open>fs.existsSync\<close>), the
  local clock (\<^verbatim>\<open>new Date().getHours()\<close>) and the proving engine
  (\<^verbatim>\<open>snarkjs.groth16.fullProve\<close>, whose failure is \<open>Inl\<close>).
\<close>

record prover_env =
  existsSync :: "string \<Rightarrow> bool"
  getHours :: int
  fullProve :: "int ZKPInput \<Rightarrow> string + (js_value \<times> string list)"

definition circuitWasmPath :: string where
  "circuitWasmPath = ''./build/payment_rules_js/payment_rules.wasm''"

definition circuitZkeyPath :: string where
  "circuitZkeyPath = ''./build/payment_rules_0001.zkey''"

text \<open>\<^verbatim>\<open>checkCircuitFiles\<close>: the loop returns false at the first missing file.\<close>

fun all_exist :: "(string \<Rightarrow> bool) \<Rightarrow> string list \<Rightarrow> bool" where
  "all_exist ex [] = True"
| "all_exist ex (f # fs) = (if \<not> ex f then False else all_exist ex fs)"

definition checkCircuitFiles :: "prover_env \<Rightarrow> bool" where
  "checkCircuitFiles env = all_exist (existsSync env) [circuitWasmPath, circuitZkeyPath]"

subsection \<open>addressToNumber\<close>

text \<open>
  \<^verbatim>\<open>toLowerCase\<close> on ASCII, and one round of the loop
  \<^verbatim>\<open>hash = ((hash << 5) - hash) + char; hash = hash & hash\<close>: the shift and the final
  \<^verbatim>\<open>&\<close> both reduce to a signed 32-bit integer, so the accumulator is a 32-bit word and
  \<^verbatim>\<open>Math.abs\<close> reads it as two's complement.
\<close>

definition toLowerCase_char :: "char \<Rightarrow> char" where
  "toLowerCase_char c =
     (let n = (of_char c :: nat) in if 65 \<le> n \<and> n \<le> 90 then char_of (n + 32) else c)"

definition toLowerCase :: "string \<Rightarrow> string" where
  "toLowerCase s = map toLowerCase_char s"

definition hash_step :: "char \<Rightarrow> 32 word \<Rightarrow> 32 word" where
  "hash_step c hash = (push_bit 5 hash - hash) + of_nat (of_char c)"

definition addressToNumber :: "string \<Rightarrow> int" where
  "addressToNumber addr =
     (if length addr < 42 then 0
      else \<bar>sint (fold hash_step (toLowerCase addr) 0)\<bar>)"

subsection \<open>validateRulesManually and generatePaymentProof\<close>

text \<open>
  \<^verbatim>\<open>parseInt(paymentPlan.amount.toString())\<close> of a whole amount is the amount itself.
  Amounts are whole numbers of magnitude below 10^21: a fraction would be truncated, and a
  larger number is printed in exponent form, of which \<^verbatim>\<open>parseInt\<close> reads the leading
  digit only. Neither is covered here.
\<close>

definition parseInt_toString :: "int \<Rightarrow> int" where
  "parseInt_toString n = n"

text \<open>\<^verbatim>\<open>Array.prototype.includes\<close> on strings: exact, case-sensitive equality.\<close>

fun js_includes :: "string list \<Rightarrow> string \<Rightarrow> bool" where
  "js_includes [] x = False"
| "js_includes (y # ys) x = (if y = x then True else js_includes ys x)"

definition validateRulesManually :: "prover_env \<Rightarrow> PaymentPlan \<Rightarrow> UserRules \<Rightarrow> bool" where
  "validateRulesManually env paymentPlan userRules =
     (let addressValid = js_includes (allowedAddresses userRules) (toAddress paymentPlan);
          amountValid = (parseInt_toString (amount paymentPlan) \<le> maxAmount userRules);
          paymentHour = getHours env;
          timeValid = (paymentHour \<ge> fst (allowedHours userRules)
                       \<and> paymentHour \<le> snd (allowedHours userRules))
      in addressValid \<and> amountValid \<and> timeValid)"

text \<open>\<^verbatim>\<open>userRules.allowedAddresses[i] || '0x0'\<close>: a missing or empty slot reads as '0x0'.\<close>

definition address_slot :: "string list \<Rightarrow> nat \<Rightarrow> string" where
  "address_slot xs i = (if i < length xs \<and> xs ! i \<noteq> [] then xs ! i else ''0x0'')"

definition circuit_input :: "prover_env \<Rightarrow> PaymentPlan \<Rightarrow> UserRules \<Rightarrow> int ZKPInput" where
  "circuit_input env paymentPlan userRules =
     (let currentHour = getHours env in
      \<lparr> paymentAddress = addressToNumber (toAddress paymentPlan),
        paymentAmount = parseInt_toString (amount paymentPlan),
        paymentTimestamp = currentHour,
        allowedAddress1 = addressToNumber (address_slot (allowedAddresses userRules) 0),
        allowedAddress2 = addressToNumber (address_slot (allowedAddresses userRules) 1),
        allowedAddress3 = addressToNumber (address_slot (allowedAddresses userRules) 2),
        in_maxAmount = maxAmount userRules,
        minHour = fst (allowedHours userRules),
        maxHour = snd (allowedHours userRules) \<rparr>)"

definition mock_proof :: "bool \<Rightarrow> js_value" where
  "mock_proof v = JObj [(''mock'', JBool True), (''validated'', JBool v)]"

definition signal_of_bool :: "bool \<Rightarrow> string" where
  "signal_of_bool b = (if b then ''1'' else ''0'')"

text \<open>
  The result is \<open>Inl\<close> when the proving engine throws (the catch block rethrows).
\<close>

definition generatePaymentProof ::
  "prover_env \<Rightarrow> PaymentPlan \<Rightarrow> UserRules \<Rightarrow> string + ZKPResult" where
  "generatePaymentProof env paymentPlan userRules =
     (if \<not> checkCircuitFiles env then
        (let v = validateRulesManually env paymentPlan userRules in
         Inr \<lparr> proof_obj = mock_proof v, publicSignals = [signal_of_bool v], isValid = v \<rparr>)
      else
        (case fullProve env (circuit_input env paymentPlan userRules) of
           Inl e \<Rightarrow> Inl e
         | Inr (p, sigs) \<Rightarrow>
             Inr \<lparr> proof_obj = p, publicSignals = sigs,
                   isValid = (case sigs of [] \<Rightarrow> False | s # _ \<Rightarrow> s = ''1'') \<rparr>))"

text \<open>A machine without the build directory, at two in the afternoon.\<close>

definition no_artifacts_env :: prover_env where
  "no_artifacts_env =
     \<lparr> existsSync = (\<lambda>f. False), getHours = 14, fullProve = (\<lambda>i. Inl ''unreachable'') \<rparr>"

definition demo_rules :: UserRules where
  "demo_rules =
     \<lparr> allowedAddresses = [''0xF2431b618B5b02923922c525885DBfFcdb9DE853'',
                            ''0xE2F2E032B02584e81437bA8Df18F03d6771F9d23''],
       maxAmount = 10, allowedHours = (9, 18) \<rparr>"

definition demo_plan :: PaymentPlan where
  "demo_plan =
     \<lparr> toAddress = ''0xF2431b618B5b02923922c525885DBfFcdb9DE853'', amount = 6,
       timestamp = 1700000000 \<rparr>"

section \<open>The verifier\<close>

subsection \<open>Local structural verification (verifyProofLocally)\<close>

fun js_every :: "('a \<Rightarrow> bool) \<Rightarrow> 'a list \<Rightarrow> bool" where
  "js_every P [] = True"
| "js_every P (x # xs) = (if P x then js_every P xs else False)"

definition verifyProofLocally :: "js_value \<Rightarrow> string list \<Rightarrow> bool" where
  "verifyProofLocally prf sigs =
     (if \<not> js_truthy prf \<or> js_typeof prf \<noteq> ''object'' then False
      else if length sigs \<noteq> 4 then False
      else js_every (\<lambda>signal. signal = ''1'') sigs)"

subsection \<open>The contract ZKPVerifier.sol\<close>

type_synonym uint256 = "256 word"
type_synonym bytes32 = "256 word"
type_synonym address = "160 word"

record Proof =
  proof_a :: "uint256 \<times> uint256"
  proof_b :: "uint256 \<times> uint256"
  proof_c :: "uint256 \<times> uint256"

record PaymentProof =
  pp_zkProof :: Proof
  pp_publicSignals :: "uint256 list"
  pp_ruleHash :: bytes32
  pp_paymentAddress :: address
  pp_amount :: uint256
  pp_timestamp :: uint256
  pp_verified :: bool

text \<open>The storage of the contract; a mapping reads as the zero value where never written.\<close>

record ZKPVerifier_state =
  paymentProofs :: "bytes32 \<Rightarrow> PaymentProof"
  userProofs :: "address \<Rightarrow> bytes32 list"

definition zero_PaymentProof :: PaymentProof where
  "zero_PaymentProof =
     \<lparr> pp_zkProof = \<lparr> proof_a = (0, 0), proof_b = (0, 0), proof_c = (0, 0) \<rparr>,
       pp_publicSignals = [], pp_ruleHash = 0, pp_paymentAddress = 0, pp_amount = 0,
       pp_timestamp = 0, pp_verified = False \<rparr>"

definition deployed_state :: ZKPVerifier_state where
  "deployed_state = \<lparr> paymentProofs = (\<lambda>i. zero_PaymentProof), userProofs = (\<lambda>u. []) \<rparr>"

definition verifyGroth16Proof :: "Proof \<Rightarrow> uint256 list \<Rightarrow> bool" where
  "verifyGroth16Proof zp sigs =
     (if fst (proof_a zp) = 0 \<and> snd (proof_a zp) = 0 then False
      else if fst (proof_b zp) = 0 \<and> snd (proof_b zp) = 0 then False
      else if fst (proof_c zp) = 0 \<and> snd (proof_c zp) = 0 then False
      else if length sigs \<noteq> 4 then False
      else True)"

definition verifyPublicSignals :: "uint256 list \<Rightarrow> bytes32 \<Rightarrow> address \<Rightarrow> uint256 \<Rightarrow> bool" where
  "verifyPublicSignals sigs ruleHash payAddr amt =
     (if length sigs \<noteq> 4 then False
      else sigs ! 0 = 1 \<and> sigs ! 1 = 1 \<and> sigs ! 2 = 1 \<and> sigs ! 3 = 1)"

text \<open>
  \<^verbatim>\<open>verifyAndAuthorizePayment\<close>: a failed \<^verbatim>\<open>require\<close> reverts (\<open>Inl\<close>, storage
  untouched); otherwise the proof record is stored with its verdict, the proof id is
  appended to the sender's list and the verdict is returned. Events are not modelled.
\<close>

definition verifyAndAuthorizePayment ::
  "ZKPVerifier_state \<Rightarrow> address \<Rightarrow> uint256 \<Rightarrow> bytes32 \<Rightarrow> Proof \<Rightarrow> uint256 list \<Rightarrow> bytes32
     \<Rightarrow> address \<Rightarrow> uint256 \<Rightarrow> string + (bool \<times> ZKPVerifier_state)" where
  "verifyAndAuthorizePayment st msg_sender block_timestamp proofId zp sigs ruleHash payAddr amt =
     (if proofId = 0 then Inl ''Invalid proof ID''
      else if pp_verified (paymentProofs st proofId) then Inl ''Proof already verified''
      else
        (let isValidProof = verifyGroth16Proof zp sigs;
             isValidSignals = verifyPublicSignals sigs ruleHash payAddr amt;
             valid = (isValidProof \<and> isValidSignals);
             st' = st \<lparr> paymentProofs := (paymentProofs st)
                          (proofId := \<lparr> pp_zkProof = zp, pp_publicSignals = sigs,
                                        pp_ruleHash = ruleHash, pp_paymentAddress = payAddr,
                                        pp_amount = amt, pp_timestamp = block_timestamp,
                                        pp_verified = valid \<rparr>),
                        userProofs := (userProofs st)
                          (msg_sender := userProofs st msg_sender @ [proofId]) \<rparr>
         in Inr (valid, st')))"

definition isProofVerified :: "ZKPVerifier_state \<Rightarrow> bytes32 \<Rightarrow> bool" where
  "isProofVerified st proofId = pp_verified (paymentProofs st proofId)"

subsection \<open>The client (OnChainZKPVerifier.verifyProofOnChain)\<close>

text \<open>
  What the client reads from outside itself. The remote calls can each fail
  (\<open>rpc_ok\<close>). The proof id is a digest over the serialized arguments and the current
  time, taken as given (\<open>None\<close> where the serialization throws). \<^verbatim>\<open>BigInt\<close> applied
  to a string or to an object, and the ABI encoder's treatment of the byte strings and of
  the 2x2 array handed over for the field \<^verbatim>\<open>b\<close> (declared \<^verbatim>\<open>uint256[2]\<close>), are the
  platform's, \<open>None\<close> where they throw. The contract is run on one storage: what the
  simulation sees is what the transaction and the later read see.
\<close>

datatype rpc_call = SimulateContract | WriteContract | WaitForReceipt | ReadContract

record chain_env =
  contractAddress :: "string option"
  storage :: ZKPVerifier_state
  account :: address
  block_time :: uint256
  generateProofId :: "js_value \<Rightarrow> string list \<Rightarrow> string \<Rightarrow> bytes32 option"
  StringToBigInt :: "string \<Rightarrow> int option"
  ObjectToBigInt :: "js_value \<Rightarrow> int option"
  encode_bytes32 :: "string \<Rightarrow> bytes32 option"
  encode_address :: "string \<Rightarrow> address option"
  encode_b :: "(int \<times> int) \<times> (int \<times> int) \<Rightarrow> (uint256 \<times> uint256) option"
  rpc_ok :: "rpc_call \<Rightarrow> bool"

text \<open>
  Property read \<^verbatim>\<open>v.k\<close> (\<open>None\<close>: a TypeError) and optional index \<^verbatim>\<open>v?.[i]\<close>: an
  element of an array, a character of a string, the property named by the index of an
  object, undefined otherwise.
\<close>

fun js_get :: "js_value \<Rightarrow> string \<Rightarrow> js_value option" where
  "js_get JUndefined k = None"
| "js_get JNull k = None"
| "js_get (JObj kvs) k = (case map_of kvs k of None \<Rightarrow> Some JUndefined | Some v \<Rightarrow> Some v)"
| "js_get v k = Some JUndefined"

fun js_opt_index :: "js_value \<Rightarrow> nat \<Rightarrow> js_value" where
  "js_opt_index (JArr xs) i = (if i < length xs then xs ! i else JUndefined)"
| "js_opt_index (JStr s) i = (if i < length s then JStr [s ! i] else JUndefined)"
| "js_opt_index (JObj kvs) i =
     (case map_of kvs (show_nat i) of None \<Rightarrow> JUndefined | Some v \<Rightarrow> v)"
| "js_opt_index v i = JUndefined"

definition BigInt :: "chain_env \<Rightarrow> js_value \<Rightarrow> int option" where
  "BigInt env v =
     (case v of
        JUndefined \<Rightarrow> None
      | JNull \<Rightarrow> None
      | JBool t \<Rightarrow> Some (if t then 1 else 0)
      | JNum n \<Rightarrow> Some n
      | JBigInt n \<Rightarrow> Some n
      | JStr s \<Rightarrow> StringToBigInt env s
      | JArr xs \<Rightarrow> ObjectToBigInt env v
      | JObj kvs \<Rightarrow> ObjectToBigInt env v)"

definition safeBigInt :: "chain_env \<Rightarrow> js_value \<Rightarrow> int option" where
  "safeBigInt env v =
     (case v of
        JBigInt n \<Rightarrow> Some n
      | JStr s \<Rightarrow> BigInt env (JStr (filter (\<lambda>ch. ch \<noteq> CHR '','') s))
      | JNum n \<Rightarrow> BigInt env (JNum n)
      | _ \<Rightarrow> BigInt env (if js_truthy v then v else JNum 0))"

record OnChainProof =
  oc_a :: "int \<times> int"
  oc_b :: "(int \<times> int) \<times> (int \<times> int)"
  oc_c :: "int \<times> int"

definition convertToOnChainProof :: "chain_env \<Rightarrow> js_value \<Rightarrow> OnChainProof option" where
  "convertToOnChainProof env prf =
     (case (js_get prf ''pi_a'', js_get prf ''pi_b'', js_get prf ''pi_c'') of
        (Some pa, Some pb, Some pc) \<Rightarrow>
          (case (safeBigInt env (js_opt_index pa 0), safeBigInt env (js_opt_index pa 1),
                 safeBigInt env (js_opt_index (js_opt_index pb 0) 0),
                 safeBigInt env (js_opt_index (js_opt_index pb 0) 1),
                 safeBigInt env (js_opt_index (js_opt_index pb 1) 0),
                 safeBigInt env (js_opt_index (js_opt_index pb 1) 1),
                 safeBigInt env (js_opt_index pc 0), safeBigInt env (js_opt_index pc 1)) of
             (Some a0, Some a1, Some b00, Some b01, Some b10, Some b11, Some c0, Some c1) \<Rightarrow>
               Some \<lparr> oc_a = (a0, a1), oc_b = ((b00, b01), (b10, b11)), oc_c = (c0, c1) \<rparr>
           | _ \<Rightarrow> None)
      | _ \<Rightarrow> None)"

text \<open>ABI encoding of a \<^verbatim>\<open>uint256\<close>: a value out of range is refused.\<close>

definition encode_uint256 :: "int \<Rightarrow> uint256 option" where
  "encode_uint256 n = (if 0 \<le> n \<and> n < 2 ^ 256 then Some (word_of_int n) else None)"

fun encode_uint256_list :: "int list \<Rightarrow> uint256 list option" where
  "encode_uint256_list [] = Some []"
| "encode_uint256_list (n # ns) =
     (case encode_uint256 n of
        None \<Rightarrow> None
      | Some w \<Rightarrow> (case encode_uint256_list ns of None \<Rightarrow> None | Some ws \<Rightarrow> Some (w # ws)))"

fun map_BigInt :: "chain_env \<Rightarrow> string list \<Rightarrow> int list option" where
  "map_BigInt env [] = Some []"
| "map_BigInt env (s # ss) =
     (case BigInt env (JStr s) of
        None \<Rightarrow> None
      | Some n \<Rightarrow> (case map_BigInt env ss of None \<Rightarrow> None | Some ns \<Rightarrow> Some (n # ns)))"

definition encode_proof :: "chain_env \<Rightarrow> OnChainProof \<Rightarrow> Proof option" where
  "encode_proof env p =
     (case (encode_uint256 (fst (oc_a p)), encode_uint256 (snd (oc_a p)), encode_b env (oc_b p),
            encode_uint256 (fst (oc_c p)), encode_uint256 (snd (oc_c p))) of
        (Some a0, Some a1, Some bb, Some c0, Some c1) \<Rightarrow>
          Some \<lparr> proof_a = (a0, a1), proof_b = bb, proof_c = (c0, c1) \<rparr>
      | _ \<Rightarrow> None)"

text \<open>
  The body of the try block after the contract-address test: \<open>None\<close> when anything in it
  throws, otherwise what \<^verbatim>\<open>isProofVerified\<close> reads once the transaction is mined.
\<close>

definition onchain_attempt ::
  "chain_env \<Rightarrow> js_value \<Rightarrow> string list \<Rightarrow> string \<Rightarrow> string \<Rightarrow> int \<Rightarrow> bool option" where
  "onchain_attempt env prf sigs ruleHash payAddr amt =
     (case generateProofId env prf sigs ruleHash of
        None \<Rightarrow> None
      | Some proofId \<Rightarrow>
      (case convertToOnChainProof env prf of
        None \<Rightarrow> None
      | Some onChainProof \<Rightarrow>
      (case map_BigInt env sigs of
        None \<Rightarrow> None
      | Some signals \<Rightarrow>
      (case (encode_proof env onChainProof, encode_uint256_list signals,
             encode_bytes32 env ruleHash, encode_address env payAddr,
             encode_uint256 (amt * 1000000)) of
        (Some zp, Some usigs, Some rh, Some pa, Some am) \<Rightarrow>
          if \<not> rpc_ok env SimulateContract then None
          else
            (case verifyAndAuthorizePayment (storage env) (account env) (block_time env)
                    proofId zp usigs rh pa am of
               Inl reverted \<Rightarrow> None
             | Inr (ret, st') \<Rightarrow>
                 if \<not> rpc_ok env WriteContract then None
                 else if \<not> rpc_ok env WaitForReceipt then None
                 else if \<not> rpc_ok env ReadContract then None
                 else Some (isProofVerified st' proofId))
      | _ \<Rightarrow> None))))"

text \<open>
  The result is a bare boolean when no contract is configured and an object otherwise.
\<close>

record VerificationObject =
  v_success :: bool
  v_verified :: bool
  v_onChain :: bool
  v_fallback :: bool

datatype verification = VBool bool | VObj VerificationObject

definition verifyProofOnChain ::
  "chain_env \<Rightarrow> js_value \<Rightarrow> string list \<Rightarrow> string \<Rightarrow> string \<Rightarrow> int \<Rightarrow> verification" where
  "verifyProofOnChain env prf sigs ruleHash payAddr amt =
     (if contractAddress env = None \<or> contractAddress env = Some [] then
        VBool (verifyProofLocally prf sigs)
      else
        (case onchain_attempt env prf sigs ruleHash payAddr amt of
           Some isVerified \<Rightarrow>
             VObj \<lparr> v_success = True, v_verified = isVerified, v_onChain = True,
                    v_fallback = False \<rparr>
         | None \<Rightarrow>
             (let localResult = verifyProofLocally prf sigs in
              VObj \<lparr> v_success = localResult, v_verified = localResult, v_onChain = False,
                     v_fallback = True \<rparr>)))"

text \<open>
  How the pipeline reads the answer:
  \<^verbatim>\<open>typeof r === 'boolean' ? r : r.verified\<close>, and the mode it reports.
\<close>

fun authorized :: "verification \<Rightarrow> bool" where
  "authorized (VBool r) = r"
| "authorized (VObj r) = v_verified r"

fun on_chain_mode :: "verification \<Rightarrow> bool" where
  "on_chain_mode (VBool r) = False"
| "on_chain_mode (VObj r) = v_onChain r"


section \<open>The pipeline (PaymentSystem.processPayment)\<close>

text \<open>
  The pipeline talks to its collaborators in a fixed order. A run is modelled as a
  computation over the history of collaborator calls made so far: each call appends one
  event, with the outcome where a later property refers to it, and either yields a value
  or throws (\<open>Inl\<close>), which skips the rest of the try block.
\<close>

datatype status = completed | payment_failed | rule_violation | verification_failed | error_status

record ProcessResult =
  res_success :: bool
  res_status :: status

record CommitResult =
  c_success :: bool
  c_ruleHash :: "string option"

record PaymentResult =
  pr_success :: bool

record PaymentInput =
  input_type :: string
  input_content :: "string option"
  input_path :: "string option"

datatype event =
    CommitRules
  | SaveProcessingLog string
  | SendLog string string
  | ParseInvoice
  | CreatePaymentPlan
  | GeneratePaymentProof "string + ZKPResult"
  | VerifyProofOnChain "string + verification"
  | ExecutePayment "string + PaymentResult"

record 'inv collaborators =
  ruleManager_commitRules :: "UserRules \<Rightarrow> CommitResult"
  db_saveProcessingLog :: "string \<Rightarrow> bool"
  logCallback :: "string \<Rightarrow> string \<Rightarrow> bool"
  invoiceParser_parseInvoicePDF :: "string \<Rightarrow> string + 'inv"
  invoiceParser_parseInvoiceText :: "string \<Rightarrow> string + 'inv"
  invoiceParser_generateDummyInvoice :: "string + 'inv"
  paymentPlanner_createPaymentPlan :: "'inv \<Rightarrow> UserRules \<Rightarrow> string + PaymentPlan"
  zkpProver_generatePaymentProof :: "PaymentPlan \<Rightarrow> UserRules \<Rightarrow> string + ZKPResult"
  onChainZKPVerifier_verifyProofOnChain ::
    "js_value \<Rightarrow> string list \<Rightarrow> string \<Rightarrow> string \<Rightarrow> int \<Rightarrow> string + verification"
  paymentExecutor_executePayment :: "PaymentPlan \<Rightarrow> string + PaymentResult"

type_synonym 'a io = "event list \<Rightarrow> (string + 'a) \<times> event list"

definition io_return :: "'a \<Rightarrow> 'a io" where
  "io_return x = (\<lambda>h. (Inr x, h))"

definition io_throw :: "string \<Rightarrow> 'a io" where
  "io_throw e = (\<lambda>h. (Inl e, h))"

definition io_bind :: "'a io \<Rightarrow> ('a \<Rightarrow> 'b io) \<Rightarrow> 'b io" where
  "io_bind m f = (\<lambda>h. case m h of (Inl e, h') \<Rightarrow> (Inl e, h') | (Inr x, h') \<Rightarrow> f x h')"

definition io_call :: "event \<Rightarrow> string + 'a \<Rightarrow> 'a io" where
  "io_call ev outcome = (\<lambda>h. (outcome, h @ [ev]))"

definition saveProcessingLog :: "'inv collaborators \<Rightarrow> string \<Rightarrow> unit io" where
  "saveProcessingLog sys step =
     io_call (SaveProcessingLog step)
       (if db_saveProcessingLog sys step then Inr () else Inl ''saveProcessingLog failed'')"

definition sendLog :: "'inv collaborators \<Rightarrow> string \<Rightarrow> string \<Rightarrow> unit io" where
  "sendLog sys phase st =
     io_call (SendLog phase st)
       (if logCallback sys phase st then Inr () else Inl ''logCallback failed'')"

definition opt_truthy :: "string option \<Rightarrow> bool" where
  "opt_truthy x = (case x of None \<Rightarrow> False | Some s \<Rightarrow> s \<noteq> [])"

text \<open>STEP 1: commit the rules; a null rule hash makes \<^verbatim>\<open>ruleHash.substring\<close> throw.\<close>

definition step_commit :: "'inv collaborators \<Rightarrow> UserRules \<Rightarrow> string io" where
  "step_commit sys userRules =
     io_bind (sendLog sys ''commit'' ''active'') (\<lambda>_.
     io_bind (io_call CommitRules (Inr (ruleManager_commitRules sys userRules))) (\<lambda>commitResult.
     io_bind (saveProcessingLog sys ''rule_committed'') (\<lambda>_.
     io_bind (case c_ruleHash commitResult of
                None \<Rightarrow> io_throw ''TypeError''
              | Some ruleHash \<Rightarrow> io_return ruleHash) (\<lambda>ruleHash.
     io_bind (sendLog sys ''commit'' ''completed'') (\<lambda>_.
     io_return ruleHash)))))"

text \<open>STEP 2: parse the invoice.\<close>

definition step_parse :: "'inv collaborators \<Rightarrow> PaymentInput \<Rightarrow> 'inv io" where
  "step_parse sys input =
     io_bind (sendLog sys ''parse'' ''active'') (\<lambda>_.
     io_bind (io_call ParseInvoice
                (if input_type input = ''pdf'' \<and> opt_truthy (input_path input)
                 then invoiceParser_parseInvoicePDF sys (the (input_path input))
                 else if input_type input = ''text'' \<and> opt_truthy (input_content input)
                 then invoiceParser_parseInvoiceText sys (the (input_content input))
                 else invoiceParser_generateDummyInvoice sys)) (\<lambda>invoiceData.
     io_bind (saveProcessingLog sys ''invoice_parsed'') (\<lambda>_.
     io_bind (sendLog sys ''parse'' ''completed'') (\<lambda>_.
     io_return invoiceData))))"

text \<open>STEP 3: plan the payment and generate the proof.\<close>

definition step_prove ::
  "'inv collaborators \<Rightarrow> 'inv \<Rightarrow> UserRules \<Rightarrow> (PaymentPlan \<times> ZKPResult) io" where
  "step_prove sys invoiceData userRules =
     io_bind (sendLog sys ''plan'' ''active'') (\<lambda>_.
     io_bind (io_call CreatePaymentPlan
                (paymentPlanner_createPaymentPlan sys invoiceData userRules)) (\<lambda>paymentPlan.
     io_bind (saveProcessingLog sys ''payment_planned'') (\<lambda>_.
     io_bind (sendLog sys ''plan'' ''completed'') (\<lambda>_.
     io_bind (sendLog sys ''zkp'' ''active'') (\<lambda>_.
     (let r = zkpProver_generatePaymentProof sys paymentPlan userRules in
      io_bind (io_call (GeneratePaymentProof r) r) (\<lambda>zkpResult.
      io_bind (saveProcessingLog sys ''zkp_generated'') (\<lambda>_.
      io_bind (sendLog sys ''zkp'' ''completed'') (\<lambda>_.
      io_return (paymentPlan, zkpResult))))))))))"

text \<open>STEP 5: execute the payment.\<close>

definition step_pay :: "'inv collaborators \<Rightarrow> PaymentPlan \<Rightarrow> ProcessResult io" where
  "step_pay sys paymentPlan =
     io_bind (sendLog sys ''payment'' ''active'') (\<lambda>_.
     (let r = paymentExecutor_executePayment sys paymentPlan in
      io_bind (io_call (ExecutePayment r) r) (\<lambda>paymentResult.
      io_bind (saveProcessingLog sys ''payment_executed'') (\<lambda>_.
      io_bind (sendLog sys ''payment''
                 (if pr_success paymentResult then ''completed'' else ''failed'')) (\<lambda>_.
      io_return \<lparr> res_success = pr_success paymentResult,
                  res_status = (if pr_success paymentResult then completed
                                else payment_failed) \<rparr>)))))"

text \<open>STEP 4: verify, then pay only when verified.\<close>

definition step_verify ::
  "'inv collaborators \<Rightarrow> string \<Rightarrow> PaymentPlan \<Rightarrow> ZKPResult \<Rightarrow> ProcessResult io" where
  "step_verify sys ruleHash paymentPlan zkpResult =
     io_bind (sendLog sys ''verify'' ''active'') (\<lambda>_.
     (let r = onChainZKPVerifier_verifyProofOnChain sys (proof_obj zkpResult)
                (publicSignals zkpResult) ruleHash (toAddress paymentPlan) (amount paymentPlan)
      in
      io_bind (io_call (VerifyProofOnChain r) r) (\<lambda>onChainVerification.
      (let isVerified = authorized onChainVerification in
       if \<not> isVerified then
         io_return \<lparr> res_success = False, res_status = verification_failed \<rparr>
       else
         io_bind (saveProcessingLog sys ''zkp_verified'') (\<lambda>_.
         io_bind (sendLog sys ''verify'' ''completed'') (\<lambda>_.
         step_pay sys paymentPlan))))))"

text \<open>The try block.\<close>

definition try_block ::
  "'inv collaborators \<Rightarrow> PaymentInput \<Rightarrow> UserRules \<Rightarrow> ProcessResult io" where
  "try_block sys input userRules =
     io_bind (step_commit sys userRules) (\<lambda>ruleHash.
     io_bind (step_parse sys input) (\<lambda>invoiceData.
     io_bind (step_prove sys invoiceData userRules) (\<lambda>(paymentPlan, zkpResult).
     if \<not> isValid zkpResult then
       io_bind (sendLog sys ''zkp'' ''failed'') (\<lambda>_.
       io_return \<lparr> res_success = False, res_status = rule_violation \<rparr>)
     else step_verify sys ruleHash paymentPlan zkpResult)))"

text \<open>
  \<^verbatim>\<open>processPayment\<close>: the catch block logs the error and answers with the error status;
  the promise rejects (\<open>Inl\<close>) only when that last log fails too. The result comes with
  the history of the run.
\<close>

definition processPayment ::
  "'inv collaborators \<Rightarrow> PaymentInput \<Rightarrow> UserRules \<Rightarrow> (string + ProcessResult) \<times> event list" where
  "processPayment sys input userRules =
     (case try_block sys input userRules [] of
        (Inr result, h) \<Rightarrow> (Inr result, h)
      | (Inl e, h) \<Rightarrow>
          io_bind (saveProcessingLog sys ''error'') (\<lambda>_.
          io_return \<lparr> res_success = False, res_status = error_status \<rparr>) h)"

definition is_verify :: "event \<Rightarrow> bool" where
  "is_verify ev = (case ev of VerifyProofOnChain r \<Rightarrow> True | _ \<Rightarrow> False)"

definition is_execute :: "event \<Rightarrow> bool" where
  "is_execute ev = (case ev of ExecutePayment r \<Rightarrow> True | _ \<Rightarrow> False)"


text \<open>
  Reading a history: the overall-valid bit of a proof result (\<^verbatim>\<open>publicSignals[0]\<close>, absent
  for an empty vector), the three calls the gating properties are about, and a monitor
  that walks a history and accepts it when every payment execution comes after a
  verification that returned an authorizing answer.
\<close>

definition overall_valid_bit :: "ZKPResult \<Rightarrow> string option" where
  "overall_valid_bit z = (case publicSignals z of [] \<Rightarrow> None | s # _ \<Rightarrow> Some s)"

definition is_generate :: "event \<Rightarrow> bool" where
  "is_generate ev = (case ev of GeneratePaymentProof r \<Rightarrow> True | _ \<Rightarrow> False)"

definition plain :: "event \<Rightarrow> bool" where
  "plain ev = (\<not> is_verify ev \<and> \<not> is_execute ev \<and> \<not> is_generate ev)"

fun guarded :: "bool \<Rightarrow> event list \<Rightarrow> bool" where
  "guarded ok [] = True"
| "guarded ok (VerifyProofOnChain r # evs) =
     guarded (ok \<or> (case r of Inl e \<Rightarrow> False | Inr v \<Rightarrow> authorized v)) evs"
| "guarded ok (ExecutePayment r # evs) = (ok \<and> guarded ok evs)"
| "guarded ok (ev # evs) = guarded ok evs"

section \<open>The rule encoder (RuleCommitmentManager.hashRules)\<close>

text \<open>
  \<^verbatim>\<open>JSON.stringify\<close> of the normalized rules: strings quoted and escaped, whole numbers
  in decimal, keys in insertion order. The decimal form is what JavaScript prints for whole
  numbers of magnitude below 10^21; larger ones, printed in exponent form, are not covered.
\<close>

definition hex_digit :: "nat \<Rightarrow> char" where
  "hex_digit n = ''0123456789abcdef'' ! (n mod 16)"

definition json_escape_char :: "char \<Rightarrow> string" where
  "json_escape_char ch =
     (let n = (of_char ch :: nat) in
      if n = 8 then [CHR 0x5C, CHR ''b'']
      else if n = 9 then [CHR 0x5C, CHR ''t'']
      else if n = 10 then [CHR 0x5C, CHR ''n'']
      else if n = 12 then [CHR 0x5C, CHR ''f'']
      else if n = 13 then [CHR 0x5C, CHR ''r'']
      else if n = 34 then [CHR 0x5C, CHR 0x22]
      else if n = 92 then [CHR 0x5C, CHR 0x5C]
      else if n < 32 then [CHR 0x5C, CHR ''u'', CHR ''0'', CHR ''0'', hex_digit (n div 16), hex_digit n]
      else [ch])"

definition json_string :: "string \<Rightarrow> string" where
  "json_string s = [CHR 0x22] @ concat (map json_escape_char s) @ [CHR 0x22]"

definition json_number :: "int \<Rightarrow> string" where
  "json_number i = (if i < 0 then CHR ''-'' # show_nat (nat (- i)) else show_nat (nat i))"

fun join_comma :: "string list \<Rightarrow> string" where
  "join_comma [] = []"
| "join_comma [x] = x"
| "join_comma (x # y # ys) = x @ '','' @ join_comma (y # ys)"

definition stringify_rules :: "string list \<Rightarrow> int \<Rightarrow> int \<times> int \<Rightarrow> string" where
  "stringify_rules addrs cap hours =
     ''{'' @ json_string ''allowedAddresses'' @ '':['' @ join_comma (map json_string addrs) @ '']''
     @ '','' @ json_string ''maxAmount'' @ '':'' @ json_number cap
     @ '','' @ json_string ''allowedHours'' @ '':['' @ json_number (fst hours) @ '',''
     @ json_number (snd hours) @ '']''
     @ '','' @ json_string ''version'' @ '':'' @ json_string ''1.0'' @ ''}''"

text \<open>\<^verbatim>\<open>toHex\<close> of a string: 0x and two hex digits per byte.\<close>

definition toHex :: "string \<Rightarrow> string" where
  "toHex s = ''0x'' @ concat (map (\<lambda>ch. [hex_digit (of_char ch div 16), hex_digit (of_char ch)]) s)"

text \<open>
  \<^verbatim>\<open>hashRules\<close>: \<^verbatim>\<open>Array.prototype.sort\<close> without a comparator orders strings by
  code unit and sorts the caller's array in place, so the rules come back with the
  addresses sorted. The digest \<^verbatim>\<open>keccak256\<close> is the library's, taken as given.
\<close>

definition hashRules :: "(string \<Rightarrow> string) \<Rightarrow> UserRules \<Rightarrow> string \<times> UserRules" where
  "hashRules keccak256 userRules =
     (let sorted_addrs = sort (allowedAddresses userRules);
          rulesString = stringify_rules sorted_addrs (maxAmount userRules) (allowedHours userRules);
          rulesBytes = toHex rulesString;
          hash = keccak256 rulesBytes
      in (hash, userRules \<lparr> allowedAddresses := sorted_addrs \<rparr>))"

section \<open>The circuits\<close>

text \<open>
  Signals are elements of a field: the scalar field of the proving curve, a prime field of
  about 254 bits. The development is carried out for an arbitrary field; where a
  comparator of width \<open>n\<close> is involved, the only further fact used is that the natural
  numbers below \<open>2^(n+1)\<close> are distinct field elements.
\<close>

text \<open>
  Modelled from the spec: the library templates the circuits include from circomlib
  (comparators.circom, gates.circom and, through them, bitify.circom), which are not
  among the sources. The spec asks for equality tests, boolean AND and OR gates and
  unsigned comparisons over a declared bit width; they are written here as the constraints
  these templates impose on their signals. \<open>IsZero\<close> has a free inverse signal;
  \<open>Num2Bits n\<close> constrains \<open>n\<close> signals to be bits whose weighted sum (accumulated by
  the template's loop) is the input; \<open>LessThan n\<close> decomposes \<open>in0 + 2^n - in1\<close> into
  \<open>n + 1\<close> bits and outputs one minus the top bit.
\<close>

definition IsZero :: "'a::field \<Rightarrow> 'a \<Rightarrow> 'a \<Rightarrow> bool" where
  "IsZero inp inv_sig out = (out = - inp * inv_sig + 1 \<and> inp * out = 0)"

definition IsEqual :: "'a::field \<Rightarrow> 'a \<Rightarrow> 'a \<Rightarrow> 'a \<Rightarrow> bool" where
  "IsEqual in0 in1 inv_sig out = IsZero (in1 - in0) inv_sig out"

definition AND :: "'a::field \<Rightarrow> 'a \<Rightarrow> 'a \<Rightarrow> bool" where
  "AND a b out = (out = a * b)"

definition OR :: "'a::field \<Rightarrow> 'a \<Rightarrow> 'a \<Rightarrow> bool" where
  "OR a b out = (out = a + b - a * b)"

fun lc1_loop :: "'a::field list \<Rightarrow> 'a \<Rightarrow> 'a \<Rightarrow> 'a" where
  "lc1_loop [] e2 lc1 = lc1"
| "lc1_loop (b # bs) e2 lc1 = lc1_loop bs (e2 + e2) (lc1 + b * e2)"

definition Num2Bits :: "nat \<Rightarrow> 'a::field \<Rightarrow> 'a list \<Rightarrow> bool" where
  "Num2Bits n inp outs =
     (length outs = n \<and> (\<forall>b\<in>set outs. b * (b - 1) = 0) \<and> lc1_loop outs 1 0 = inp)"

definition LessThan :: "nat \<Rightarrow> 'a::field \<Rightarrow> 'a \<Rightarrow> 'a list \<Rightarrow> 'a \<Rightarrow> bool" where
  "LessThan n in0 in1 n2b_out out =
     (Num2Bits (n + 1) (in0 + 2 ^ n - in1) n2b_out \<and> out = 1 - n2b_out ! n)"

definition LessEqThan :: "nat \<Rightarrow> 'a::field \<Rightarrow> 'a \<Rightarrow> 'a list \<Rightarrow> 'a \<Rightarrow> bool" where
  "LessEqThan n in0 in1 n2b_out out = LessThan n in0 (in1 + 1) n2b_out out"

definition GreaterEqThan :: "nat \<Rightarrow> 'a::field \<Rightarrow> 'a \<Rightarrow> 'a list \<Rightarrow> 'a \<Rightarrow> bool" where
  "GreaterEqThan n in0 in1 n2b_out out = LessThan n in1 (in0 + 1) n2b_out out"


subsection \<open>The templates of the repository\<close>

text \<open>
  Each template is a predicate on its signals: the inputs, the output, and a record of
  the signals of its components.
\<close>

record 'a AddressWhitelistCheck_signals =
  eq1_inv :: 'a
  eq1_out :: 'a
  eq2_inv :: 'a
  eq2_out :: 'a
  eq3_inv :: 'a
  eq3_out :: 'a
  or1_out :: 'a
  or2_out :: 'a

definition AddressWhitelistCheck ::
  "'a::field \<Rightarrow> 'a \<Rightarrow> 'a \<Rightarrow> 'a \<Rightarrow> 'a AddressWhitelistCheck_signals \<Rightarrow> 'a \<Rightarrow> bool" where
  "AddressWhitelistCheck targetAddress allowed1 allowed2 allowed3 c isValid_out =
     (IsEqual targetAddress allowed1 (eq1_inv c) (eq1_out c)
      \<and> IsEqual targetAddress allowed2 (eq2_inv c) (eq2_out c)
      \<and> IsEqual targetAddress allowed3 (eq3_inv c) (eq3_out c)
      \<and> OR (eq1_out c) (eq2_out c) (or1_out c)
      \<and> OR (or1_out c) (eq3_out c) (or2_out c)
      \<and> isValid_out = or2_out c)"

record 'a TimeConstraintCheck_signals =
  geq_bits :: "'a list"
  geq_out :: 'a
  leq_bits :: "'a list"
  leq_out :: 'a
  and_out :: 'a

definition TimeConstraintCheck ::
  "'a::field \<Rightarrow> 'a \<Rightarrow> 'a \<Rightarrow> 'a TimeConstraintCheck_signals \<Rightarrow> 'a \<Rightarrow> bool" where
  "TimeConstraintCheck timestamp_in minHour_in maxHour_in c isValid_out =
     (GreaterEqThan 8 timestamp_in minHour_in (geq_bits c) (geq_out c)
      \<and> LessEqThan 8 timestamp_in maxHour_in (leq_bits c) (leq_out c)
      \<and> AND (geq_out c) (leq_out c) (and_out c)
      \<and> isValid_out = and_out c)"

record 'a PaymentRules_signals =
  inputs :: "'a ZKPInput"
  addressCheck :: "'a AddressWhitelistCheck_signals"
  addressCheck_isValid :: 'a
  amountCheck_bits :: "'a list"
  amountCheck_out :: 'a
  timeCheck :: "'a TimeConstraintCheck_signals"
  timeCheck_isValid :: 'a
  andGate_out :: 'a
  finalAnd_out :: 'a
  out_isValid :: 'a
  out_addressValid :: 'a
  out_amountValid :: 'a
  out_timeValid :: 'a

definition PaymentRules :: "'a::field PaymentRules_signals \<Rightarrow> bool" where
  "PaymentRules s =
     (AddressWhitelistCheck (paymentAddress (inputs s)) (allowedAddress1 (inputs s))
        (allowedAddress2 (inputs s)) (allowedAddress3 (inputs s))
        (addressCheck s) (addressCheck_isValid s)
      \<and> LessEqThan 64 (paymentAmount (inputs s)) (in_maxAmount (inputs s))
          (amountCheck_bits s) (amountCheck_out s)
      \<and> TimeConstraintCheck (paymentTimestamp (inputs s)) (minHour (inputs s))
          (maxHour (inputs s)) (timeCheck s) (timeCheck_isValid s)
      \<and> AND (addressCheck_isValid s) (amountCheck_out s) (andGate_out s)
      \<and> AND (andGate_out s) (timeCheck_isValid s) (finalAnd_out s)
      \<and> out_isValid s = finalAnd_out s
      \<and> out_addressValid s = addressCheck_isValid s
      \<and> out_amountValid s = amountCheck_out s
      \<and> out_timeValid s = timeCheck_isValid s)"

text \<open>
  \<^verbatim>\<open>IntegerDivision(n)\<close>: quotient and remainder are assigned without constraint
  (\<^verbatim>\<open><--\<close>); the three constraints follow.
\<close>

record 'a IntegerDivision_signals =
  dividend :: 'a
  divisor :: 'a
  quotient :: 'a
  remainder :: 'a
  lt_bits :: "'a list"
  lt_out :: 'a
  ge_bits :: "'a list"
  ge_out :: 'a

definition IntegerDivision :: "nat \<Rightarrow> 'a::field IntegerDivision_signals \<Rightarrow> bool" where
  "IntegerDivision n s =
     (dividend s = quotient s * divisor s + remainder s
      \<and> LessThan n (remainder s) (divisor s) (lt_bits s) (lt_out s)
      \<and> lt_out s = 1
      \<and> GreaterEqThan n (remainder s) 0 (ge_bits s) (ge_out s)
      \<and> ge_out s = 1)"

subsection \<open>Witness computation\<close>

text \<open>
  What the compiled circuit computes for its signals from inputs given as natural numbers:
  the inverse hint of \<open>IsZero\<close>, the bits \<^verbatim>\<open>(in >> i) & 1\<close> of \<open>Num2Bits\<close>, the
  integer quotient and remainder of \<open>IntegerDivision\<close>, and every signal assigned by
  \<^verbatim>\<open><==\<close>.
\<close>

definition IsZero_inv :: "'a::field \<Rightarrow> 'a" where
  "IsZero_inv inp = (if inp \<noteq> 0 then 1 / inp else 0)"

definition IsZero_out :: "'a::field \<Rightarrow> 'a" where
  "IsZero_out inp = - inp * IsZero_inv inp + 1"

definition Num2Bits_out :: "nat \<Rightarrow> nat \<Rightarrow> 'a::field list" where
  "Num2Bits_out n v = map (\<lambda>i. of_bool (bit v i)) [0..<n]"

definition LessThan_bits :: "nat \<Rightarrow> nat \<Rightarrow> nat \<Rightarrow> 'a::field list" where
  "LessThan_bits n a b = Num2Bits_out (n + 1) (a + 2 ^ n - b)"

definition LessThan_out :: "nat \<Rightarrow> nat \<Rightarrow> nat \<Rightarrow> 'a::field" where
  "LessThan_out n a b = 1 - LessThan_bits n a b ! n"

definition AddressWhitelistCheck_witness ::
  "'a::field \<Rightarrow> 'a \<Rightarrow> 'a \<Rightarrow> 'a \<Rightarrow> 'a AddressWhitelistCheck_signals" where
  "AddressWhitelistCheck_witness t a1 a2 a3 =
     (let e1 = IsZero_out (a1 - t); e2 = IsZero_out (a2 - t); e3 = IsZero_out (a3 - t);
          o1 = e1 + e2 - e1 * e2
      in \<lparr> eq1_inv = IsZero_inv (a1 - t), eq1_out = e1,
           eq2_inv = IsZero_inv (a2 - t), eq2_out = e2,
           eq3_inv = IsZero_inv (a3 - t), eq3_out = e3,
           or1_out = o1, or2_out = o1 + e3 - o1 * e3 \<rparr>)"

definition TimeConstraintCheck_witness :: "nat \<Rightarrow> nat \<Rightarrow> nat \<Rightarrow> 'a::field TimeConstraintCheck_signals" where
  "TimeConstraintCheck_witness h lo hi =
     \<lparr> geq_bits = LessThan_bits 8 lo (h + 1), geq_out = LessThan_out 8 lo (h + 1),
       leq_bits = LessThan_bits 8 h (hi + 1), leq_out = LessThan_out 8 h (hi + 1),
       and_out = LessThan_out 8 lo (h + 1) * LessThan_out 8 h (hi + 1) \<rparr>"

definition PaymentRules_witness :: "nat ZKPInput \<Rightarrow> 'a::field PaymentRules_signals" where
  "PaymentRules_witness i =
     (let ac = AddressWhitelistCheck_witness (of_nat (paymentAddress i)) (of_nat (allowedAddress1 i))
                 (of_nat (allowedAddress2 i)) (of_nat (allowedAddress3 i));
          am = LessThan_out 64 (paymentAmount i) (in_maxAmount i + 1);
          tc = TimeConstraintCheck_witness (paymentTimestamp i) (minHour i) (maxHour i);
          ag = or2_out ac * am;
          fa = ag * and_out tc
      in \<lparr> inputs = \<lparr> paymentAddress = of_nat (paymentAddress i),
                        paymentAmount = of_nat (paymentAmount i),
                        paymentTimestamp = of_nat (paymentTimestamp i),
                        allowedAddress1 = of_nat (allowedAddress1 i),
                        allowedAddress2 = of_nat (allowedAddress2 i),
                        allowedAddress3 = of_nat (allowedAddress3 i),
                        in_maxAmount = of_nat (in_maxAmount i),
                        minHour = of_nat (minHour i),
                        maxHour = of_nat (maxHour i) \<rparr>,
           addressCheck = ac, addressCheck_isValid = or2_out ac,
           amountCheck_bits = LessThan_bits 64 (paymentAmount i) (in_maxAmount i + 1),
           amountCheck_out = am,
           timeCheck = tc, timeCheck_isValid = and_out tc,
           andGate_out = ag, finalAnd_out = fa,
           out_isValid = fa, out_addressValid = or2_out ac, out_amountValid = am,
           out_timeValid = and_out tc \<rparr>)"

definition IntegerDivision_witness :: "nat \<Rightarrow> nat \<Rightarrow> nat \<Rightarrow> 'a::field IntegerDivision_signals" where
  "IntegerDivision_witness n a d =
     (let q = a div d; r = a mod d
      in \<lparr> dividend = of_nat a, divisor = of_nat d, quotient = of_nat q, remainder = of_nat r,
           lt_bits = LessThan_bits n r d, lt_out = LessThan_out n r d,
           ge_bits = LessThan_bits n 0 (r + 1), ge_out = LessThan_out n 0 (r + 1) \<rparr>)"

text \<open>
  An assignment for 7 divided by 2 in a 4-bit division, with remainder 0 and the field
  element 7/2 as quotient.
\<close>

definition forged_division :: "'a::field IntegerDivision_signals" where
  "forged_division =
     \<lparr> dividend = 7, divisor = 2, quotient = 7 / 2, remainder = 0,
       lt_bits = [0, 1, 1, 1, 0], lt_out = 1,
       ge_bits = [1, 1, 1, 1, 0], ge_out = 1 \<rparr>"


text \<open>The spec's example: a whitelisted destination, 75 under a cap of 100, hour 14 in [9, 18].\<close>

definition example_input :: "nat ZKPInput" where
  "example_input =
     \<lparr> paymentAddress = 1413697727, paymentAmount = 75, paymentTimestamp = 14,
       allowedAddress1 = 1413697727, allowedAddress2 = 20, allowedAddress3 = 0,
       in_maxAmount = 100, minHour = 9, maxHour = 18 \<rparr>"

section \<open>Sample environments\<close>

text \<open>
  Concrete collaborators on which the properties below are exercised: a platform whose
  \<^verbatim>\<open>BigInt\<close> reads decimal digit strings, an ABI encoder that keeps the first row of
  \<^verbatim>\<open>b\<close>, a freshly deployed contract, a proving engine that answers with a fixed proof
  object and the four bits of the three checks, and pipelines built from them.
\<close>

definition is_digit :: "char \<Rightarrow> bool" where
  "is_digit ch = (48 \<le> (of_char ch :: nat) \<and> (of_char ch :: nat) \<le> 57)"

definition decimal_StringToBigInt :: "string \<Rightarrow> int option" where
  "decimal_StringToBigInt s =
     (if js_every is_digit s
      then Some (fold (\<lambda>ch n. 10 * n + (int (of_char ch) - 48)) s 0)
      else None)"

definition demo_groth16_proof :: js_value where
  "demo_groth16_proof =
     JObj [(''pi_a'', JArr [JStr ''11'', JStr ''12'', JStr ''1'']),
           (''pi_b'', JArr [JArr [JStr ''21'', JStr ''22''], JArr [JStr ''23'', JStr ''24''],
                            JArr [JStr ''1'', JStr ''0'']]),
           (''pi_c'', JArr [JStr ''31'', JStr ''32'', JStr ''1'']),
           (''protocol'', JStr ''groth16''), (''curve'', JStr ''bn128'')]"

definition first_row_encode_b :: "(int \<times> int) \<times> (int \<times> int) \<Rightarrow> (uint256 \<times> uint256) option" where
  "first_row_encode_b m =
     (case (encode_uint256 (fst (fst m)), encode_uint256 (snd (fst m))) of
        (Some x, Some y) \<Rightarrow> Some (x, y)
      | _ \<Rightarrow> None)"

definition demo_chain_env :: chain_env where
  "demo_chain_env =
     \<lparr> contractAddress = Some ''0x5FbDB2315678afecb367f032d93F642f64180aa3'',
       storage = deployed_state, account = 1, block_time = 1700000000,
       generateProofId = (\<lambda>p s r. Some 5),
       StringToBigInt = decimal_StringToBigInt,
       ObjectToBigInt = (\<lambda>v. None),
       encode_bytes32 = (\<lambda>s. Some 7),
       encode_address = (\<lambda>s. Some 9),
       encode_b = first_row_encode_b,
       rpc_ok = (\<lambda>c. True) \<rparr>"

definition local_chain_env :: chain_env where
  "local_chain_env = demo_chain_env \<lparr> contractAddress := None \<rparr>"

definition demo_fullProve :: "int ZKPInput \<Rightarrow> string + (js_value \<times> string list)" where
  "demo_fullProve i =
     (let addressOk = (paymentAddress i = allowedAddress1 i \<or> paymentAddress i = allowedAddress2 i
                        \<or> paymentAddress i = allowedAddress3 i);
          amountOk = (paymentAmount i \<le> in_maxAmount i);
          timeOk = (minHour i \<le> paymentTimestamp i \<and> paymentTimestamp i \<le> maxHour i)
      in Inr (demo_groth16_proof,
              map signal_of_bool [addressOk \<and> amountOk \<and> timeOk, addressOk, amountOk, timeOk]))"

definition artifacts_env :: prover_env where
  "artifacts_env = \<lparr> existsSync = (\<lambda>f. True), getHours = 14, fullProve = demo_fullProve \<rparr>"

definition over_cap_plan :: PaymentPlan where
  "over_cap_plan = demo_plan \<lparr> amount := 60 \<rparr>"

definition demo_input :: PaymentInput where
  "demo_input = \<lparr> input_type = ''demo'', input_content = Some ''demo'', input_path = None \<rparr>"

definition demo_system :: "PaymentPlan \<Rightarrow> unit collaborators" where
  "demo_system plan =
     \<lparr> ruleManager_commitRules = (\<lambda>r. \<lparr> c_success = True, c_ruleHash = Some ''0xabc'' \<rparr>),
       db_saveProcessingLog = (\<lambda>step. True),
       logCallback = (\<lambda>phase st. True),
       invoiceParser_parseInvoicePDF = (\<lambda>path. Inl ''no file''),
       invoiceParser_parseInvoiceText = (\<lambda>content. Inl ''no service''),
       invoiceParser_generateDummyInvoice = Inr (),
       paymentPlanner_createPaymentPlan = (\<lambda>invoiceData r. Inr plan),
       zkpProver_generatePaymentProof = generatePaymentProof artifacts_env,
       onChainZKPVerifier_verifyProofOnChain =
         (\<lambda>p s h a n. Inr (verifyProofOnChain local_chain_env p s h a n)),
       paymentExecutor_executePayment = (\<lambda>p. Inr \<lparr> pr_success = True \<rparr>) \<rparr>"

definition failing_log_system :: "unit collaborators" where
  "failing_log_system =
     (demo_system over_cap_plan) \<lparr> db_saveProcessingLog := (\<lambda>step. step \<noteq> ''zkp_generated'') \<rparr>"

definition double_failing_log_system :: "unit collaborators" where
  "double_failing_log_system =
     (demo_system over_cap_plan)
       \<lparr> db_saveProcessingLog := (\<lambda>step. step \<noteq> ''zkp_generated'' \<and> step \<noteq> ''error'') \<rparr>"


section \<open>Properties of the prover\<close>

text \<open>The shape of every artifact of the direct-evaluation fallback.\<close>

lemma fallback_artifact:
  "\<not> checkCircuitFiles env \<Longrightarrow>
     generatePaymentProof env paymentPlan userRules
       = Inr \<lparr> proof_obj = mock_proof (validateRulesManually env paymentPlan userRules),
               publicSignals = [signal_of_bool (validateRulesManually env paymentPlan userRules)],
               isValid = validateRulesManually env paymentPlan userRules \<rparr>"
  by (simp add: generatePaymentProof_def Let_def)

text \<open>
  C7. The identifier-to-number mapping is claimed to give distinct numbers to distinct
  42-character addresses. The rolling 32-bit hash does not: these two different addresses
  (both already lower case) are mapped to the same number 1413697727.
\<close>

theorem C7_addressToNumber_collision:
  "addressToNumber ''0x3c719c7a2645a08c691d3695901426ff60be18af'' = 1413697727
   \<and> addressToNumber ''0xa9d9f1e03b26c11c44e690cca617b057858b3736'' = 1413697727
   \<and> length ''0x3c719c7a2645a08c691d3695901426ff60be18af'' = 42
   \<and> length ''0xa9d9f1e03b26c11c44e690cca617b057858b3736'' = 42
   \<and> ''0x3c719c7a2645a08c691d3695901426ff60be18af''
       \<noteq> ''0xa9d9f1e03b26c11c44e690cca617b057858b3736''"
  by code_simp

text \<open>
  C6. Without the proving artifacts the prover evaluates the rules directly and returns the
  mock sentinel as proof; its public signals are claimed to be the four bits
  [overallValid, destinationValid, amountValid, timeValid]. For the demo payment, which
  passes all three checks, the returned signal vector is the single entry '1'.
\<close>

theorem C6_fallback_single_signal:
  "generatePaymentProof no_artifacts_env demo_plan demo_rules
     = Inr \<lparr> proof_obj = JObj [(''mock'', JBool True), (''validated'', JBool True)],
             publicSignals = [''1''], isValid = True \<rparr>"
  by (simp add: generatePaymentProof_def checkCircuitFiles_def no_artifacts_env_def
      validateRulesManually_def demo_plan_def demo_rules_def parseInt_toString_def
      mock_proof_def signal_of_bool_def)

text \<open>
  C10. The hour checked is the clock's, never the caller's: changing only the timestamp
  field of the payment plan changes nothing in what the prover returns, in the fallback as
  in the proving path, for the same clock, file system and proving engine.
\<close>

theorem C10_timestamp_ignored:
  "generatePaymentProof env (paymentPlan\<lparr>timestamp := t\<rparr>) userRules
     = generatePaymentProof env paymentPlan userRules"
  by (simp add: generatePaymentProof_def validateRulesManually_def circuit_input_def)

section \<open>Properties of the verifier\<close>

lemma js_every_iff: "js_every P xs = (\<forall>x\<in>set xs. P x)"
  by (induction xs) auto

lemma four_equal_entries:
  "length xs = 4 \<Longrightarrow> (\<forall>x\<in>set xs. x = v) \<Longrightarrow> xs = [v, v, v, v]"
  by (auto simp: length_Suc_conv numeral_eq_Suc)

lemma verifyProofLocally_iff:
  "verifyProofLocally prf sigs
     = (js_truthy prf \<and> js_typeof prf = ''object'' \<and> sigs = [''1'', ''1'', ''1'', ''1''])"
  unfolding verifyProofLocally_def js_every_iff
  using four_equal_entries [of sigs "''1''"] by auto

lemma verifyPublicSignals_iff:
  "verifyPublicSignals sigs rh pa am = (sigs = [1, 1, 1, 1])"
  unfolding verifyPublicSignals_def
  by (auto simp: length_Suc_conv numeral_eq_Suc nth_Cons')

lemma contract_result:
  "verifyAndAuthorizePayment st sender ts pid zp sigs rh pa am = Inr (r, st') \<Longrightarrow>
     r = (verifyGroth16Proof zp sigs \<and> verifyPublicSignals sigs rh pa am)"
  unfolding verifyAndAuthorizePayment_def Let_def
  by (auto split: if_splits)

lemma contract_stores:
  "verifyAndAuthorizePayment st sender ts pid zp sigs rh pa am = Inr (r, st') \<Longrightarrow>
     isProofVerified st' pid = r"
  unfolding verifyAndAuthorizePayment_def Let_def isProofVerified_def
  by (auto split: if_splits)

lemma contract_true:
  "verifyAndAuthorizePayment st sender ts pid zp sigs rh pa am = Inr (True, st') \<Longrightarrow>
     sigs = [1, 1, 1, 1]"
  using contract_result [of st sender ts pid zp sigs rh pa am True st']
  by (simp add: verifyPublicSignals_iff)

lemma map_BigInt_Some:
  "map_BigInt env ss = Some ns \<Longrightarrow> map (StringToBigInt env) ss = map Some ns"
  by (induction ss arbitrary: ns) (auto simp: BigInt_def split: option.splits)

lemma encode_uint256_one:
  assumes "encode_uint256 n = Some 1"
  shows "n = 1"
proof -
  from assms have r: "0 \<le> n" "n < 2 ^ 256" and w: "(word_of_int n :: 256 word) = 1"
    by (auto simp: encode_uint256_def split: if_splits)
  have "uint (word_of_int n :: 256 word) = n"
    using r by (simp add: uint_word_of_int take_bit_int_eq_self)
  with w show "n = 1" by simp
qed

lemma encode_list_ones:
  "encode_uint256_list ns = Some ws \<Longrightarrow> \<forall>w\<in>set ws. w = 1 \<Longrightarrow> \<forall>n\<in>set ns. n = 1"
  by (induction ns arbitrary: ws) (auto split: option.splits dest: encode_uint256_one)

lemma encode_list_length:
  "encode_uint256_list ns = Some ws \<Longrightarrow> length ws = length ns"
  by (induction ns arbitrary: ws) (auto split: option.splits)

text \<open>An on-chain answer is the verdict the contract stored for the arguments it was sent.\<close>

lemma onchain_attempt_SomeD:
  assumes "onchain_attempt env prf sigs ruleHash payAddr amt = Some r"
  shows "\<exists>pid oc signals zp usigs rh pa am st'.
           convertToOnChainProof env prf = Some oc \<and> map_BigInt env sigs = Some signals
           \<and> encode_proof env oc = Some zp \<and> encode_uint256_list signals = Some usigs
           \<and> verifyAndAuthorizePayment (storage env) (account env) (block_time env)
                 pid zp usigs rh pa am = Inr (r, st')"
proof (cases "generateProofId env prf sigs ruleHash")
  case None
  with assms show ?thesis by (simp add: onchain_attempt_def)
next
  case pid: (Some pid)
  show ?thesis
  proof (cases "convertToOnChainProof env prf")
    case None
    with assms pid show ?thesis by (simp add: onchain_attempt_def)
  next
    case oc: (Some oc)
    show ?thesis
    proof (cases "map_BigInt env sigs")
      case None
      with assms pid oc show ?thesis by (simp add: onchain_attempt_def)
    next
      case sg: (Some signals)
      from assms pid oc sg obtain zp usigs rh pa am where
        e: "encode_proof env oc = Some zp" "encode_uint256_list signals = Some usigs" and
        k: "(case verifyAndAuthorizePayment (storage env) (account env) (block_time env)
                      pid zp usigs rh pa am of
                 Inl reverted \<Rightarrow> None
               | Inr (ret, st') \<Rightarrow>
                   if \<not> rpc_ok env WriteContract then None
                   else if \<not> rpc_ok env WaitForReceipt then None
                   else if \<not> rpc_ok env ReadContract then None
                   else Some (isProofVerified st' pid)) = Some r"
        by (auto simp: onchain_attempt_def split: option.splits if_splits)
      from k obtain ret st' where
        c: "verifyAndAuthorizePayment (storage env) (account env) (block_time env)
              pid zp usigs rh pa am = Inr (ret, st')"
        and i: "isProofVerified st' pid = r"
        by (auto split: sum.splits if_splits)
      from contract_stores [OF c] i have "ret = r" by simp
      with oc sg e c show ?thesis by blast
    qed
  qed
qed

lemma onchain_attempt_true:
  assumes "onchain_attempt env prf sigs ruleHash payAddr amt = Some True"
  shows "map (StringToBigInt env) sigs = [Some 1, Some 1, Some 1, Some 1]"
proof -
  from onchain_attempt_SomeD [OF assms] obtain pid signals zp usigs rh pa am st' where
    s: "map_BigInt env sigs = Some signals" and
    u: "encode_uint256_list signals = Some usigs" and
    c: "verifyAndAuthorizePayment (storage env) (account env) (block_time env)
          pid zp usigs rh pa am = Inr (True, st')"
    by blast
  from contract_true [OF c] have us: "usigs = [1, 1, 1, 1]" .
  with encode_list_ones [OF u] encode_list_length [OF u]
  have "\<forall>n\<in>set signals. n = 1" "length signals = 4" by auto
  then have "signals = [1, 1, 1, 1]" by (rule four_equal_entries [rotated])
  with map_BigInt_Some [OF s] show ?thesis by simp
qed

lemma convert_mock:
  "convertToOnChainProof env (mock_proof v)
     = Some \<lparr> oc_a = (0, 0), oc_b = ((0, 0), (0, 0)), oc_c = (0, 0) \<rparr>"
  by (simp add: convertToOnChainProof_def mock_proof_def safeBigInt_def BigInt_def)

lemma mock_never_onchain:
  "onchain_attempt env (mock_proof v) sigs ruleHash payAddr amt \<noteq> Some True"
proof
  assume a: "onchain_attempt env (mock_proof v) sigs ruleHash payAddr amt = Some True"
  from onchain_attempt_SomeD [OF a] obtain pid zp usigs rh pa am st' where
    e: "encode_proof env \<lparr> oc_a = (0, 0), oc_b = ((0, 0), (0, 0)), oc_c = (0, 0) \<rparr> = Some zp" and
    c: "verifyAndAuthorizePayment (storage env) (account env) (block_time env)
          pid zp usigs rh pa am = Inr (True, st')"
    unfolding convert_mock by auto
  from e have "proof_a zp = (0, 0)"
    by (auto simp: encode_proof_def encode_uint256_def split: option.splits)
  then have "\<not> verifyGroth16Proof zp usigs" by (simp add: verifyGroth16Proof_def)
  with contract_result [OF c] show False by simp
qed

text \<open>
  C2. Authorization needs four public outputs that are all 1, in every mode: the local
  check accepts only the vector of four strings '1'; the contract's signal check, and with
  it \<^verbatim>\<open>verifyAndAuthorizePayment\<close>, answers true only for the four numbers 1; and
  whenever the client reports an authorized result, the signals it was given are four
  entries that read as 1 on chain, or are the four strings '1' in the local mode. Any
  vector with a 0 bit or of another length is therefore refused.
\<close>

theorem C2_authorized_only_four_ones:
  "(verifyProofLocally prf sigs \<longrightarrow> sigs = [''1'', ''1'', ''1'', ''1''])
   \<and> (verifyPublicSignals usigs rh pa am \<longrightarrow> usigs = [1, 1, 1, 1])
   \<and> (map_sum id fst (verifyAndAuthorizePayment st sender ts pid zp usigs rh pa am) = Inr True
        \<longrightarrow> usigs = [1, 1, 1, 1])
   \<and> (authorized (verifyProofOnChain env prf sigs ruleHash payAddr amt) \<longrightarrow>
        (if on_chain_mode (verifyProofOnChain env prf sigs ruleHash payAddr amt)
         then map (StringToBigInt env) sigs = [Some 1, Some 1, Some 1, Some 1]
         else sigs = [''1'', ''1'', ''1'', ''1'']))"
proof -
  have c: "usigs = [1, 1, 1, 1]"
    if "map_sum id fst (verifyAndAuthorizePayment st sender ts pid zp usigs rh pa am) = Inr True"
  proof -
    from that obtain st' where
      "verifyAndAuthorizePayment st sender ts pid zp usigs rh pa am = Inr (True, st')"
      by (cases "verifyAndAuthorizePayment st sender ts pid zp usigs rh pa am") auto
    then show ?thesis by (rule contract_true)
  qed
  have d: "if on_chain_mode (verifyProofOnChain env prf sigs ruleHash payAddr amt)
         then map (StringToBigInt env) sigs = [Some 1, Some 1, Some 1, Some 1]
         else sigs = [''1'', ''1'', ''1'', ''1'']"
    if "authorized (verifyProofOnChain env prf sigs ruleHash payAddr amt)"
    using that unfolding verifyProofOnChain_def Let_def
    by (auto simp: verifyProofLocally_iff split: option.splits if_splits
        dest: onchain_attempt_true)
  from c d show ?thesis
    by (simp add: verifyProofLocally_iff verifyPublicSignals_iff)
qed

text \<open>
  The four hypotheses hold together: a proof object with four '1' signals passes the local
  check, the deployed contract and the client in on-chain mode.
\<close>

theorem C2_authorized_only_four_ones_witness:
  "verifyProofLocally demo_groth16_proof [''1'', ''1'', ''1'', ''1'']
   \<and> verifyPublicSignals [1, 1, 1, 1] 7 9 6000000
   \<and> map_sum id fst (verifyAndAuthorizePayment deployed_state 1 1700000000 5
        \<lparr> proof_a = (11, 12), proof_b = (21, 22), proof_c = (31, 32) \<rparr> [1, 1, 1, 1] 7 9 6000000)
       = Inr True
   \<and> authorized (verifyProofOnChain demo_chain_env demo_groth16_proof
        [''1'', ''1'', ''1'', ''1''] ''0xabc'' ''0xF2431b618B5b02923922c525885DBfFcdb9DE853'' 6)
   \<and> on_chain_mode (verifyProofOnChain demo_chain_env demo_groth16_proof
        [''1'', ''1'', ''1'', ''1''] ''0xabc'' ''0xF2431b618B5b02923922c525885DBfFcdb9DE853'' 6)
   \<and> map (StringToBigInt demo_chain_env) [''1'', ''1'', ''1'', ''1'']
       = [Some 1, Some 1, Some 1, Some 1]"
proof -
  have l: "verifyProofLocally demo_groth16_proof [''1'', ''1'', ''1'', ''1'']"
    by code_simp
  have s: "verifyPublicSignals [1, 1, 1, 1] 7 9 6000000"
    by (simp add: verifyPublicSignals_def)
  have k: "map_sum id fst (verifyAndAuthorizePayment deployed_state 1 1700000000 5
        \<lparr> proof_a = (11, 12), proof_b = (21, 22), proof_c = (31, 32) \<rparr> [1, 1, 1, 1] 7 9 6000000)
       = Inr True"
    by (simp add: verifyAndAuthorizePayment_def deployed_state_def zero_PaymentProof_def
        verifyGroth16Proof_def verifyPublicSignals_def)
  have r: "verifyProofOnChain demo_chain_env demo_groth16_proof
        [''1'', ''1'', ''1'', ''1''] ''0xabc'' ''0xF2431b618B5b02923922c525885DBfFcdb9DE853'' 6
      = VObj \<lparr> v_success = True, v_verified = True, v_onChain = True, v_fallback = False \<rparr>"
    by code_simp
  from C2_authorized_only_four_ones [of demo_groth16_proof "[''1'', ''1'', ''1'', ''1'']"
      "[1, 1, 1, 1]" 7 9 6000000 deployed_state 1 1700000000 5
      "\<lparr> proof_a = (11, 12), proof_b = (21, 22), proof_c = (31, 32) \<rparr>"
      demo_chain_env "''0xabc''" "''0xF2431b618B5b02923922c525885DBfFcdb9DE853''" 6]
    l s k r
  show ?thesis by simp
qed

text \<open>
  C4 (as amended). Local structural verification accepts an artifact exactly when its
  proof field is a non-null object and its public signals are the four strings '1'. The
  shape of the object is not inspected.
\<close>

theorem C4_local_verification_accepts_iff:
  "verifyProofLocally prf sigs
     = (js_truthy prf \<and> js_typeof prf = ''object'' \<and> sigs = [''1'', ''1'', ''1'', ''1''])"
proof (cases "js_truthy prf \<and> js_typeof prf = ''object''")
  case False
  then show ?thesis by (auto simp: verifyProofLocally_def)
next
  case obj: True
  show ?thesis
  proof (cases "length sigs = 4")
    case False
    with obj show ?thesis by (auto simp: verifyProofLocally_def)
  next
    case True
    with obj have "verifyProofLocally prf sigs = (\<forall>signal\<in>set sigs. signal = ''1'')"
      by (simp add: verifyProofLocally_def js_every_iff)
    also have "\<dots> = (sigs = [''1'', ''1'', ''1'', ''1''])"
      using four_equal_entries [OF True, of "''1''"] by auto
    finally show ?thesis using obj by simp
  qed
qed

theorem C4_local_verification_accepts_iff_witness:
  "verifyProofLocally demo_groth16_proof [''1'', ''1'', ''1'', ''1'']
   \<and> js_typeof demo_groth16_proof = ''object''
   \<and> \<not> verifyProofLocally JNull [''1'', ''1'', ''1'', ''1'']
   \<and> \<not> verifyProofLocally demo_groth16_proof [''1'', ''1'', ''0'', ''1'']"
  using C4_local_verification_accepts_iff [of demo_groth16_proof "[''1'', ''1'', ''1'', ''1'']"]
    C4_local_verification_accepts_iff [of JNull "[''1'', ''1'', ''1'', ''1'']"]
    C4_local_verification_accepts_iff [of demo_groth16_proof "[''1'', ''1'', ''0'', ''1'']"]
  by (simp add: demo_groth16_proof_def)

text \<open>
  C4 as stated fails: the direct-evaluation sentinel is an object, so with four '1' signals
  the local check accepts it.
\<close>

theorem C4_sentinel_with_four_ones_accepted:
  "verifyProofLocally (mock_proof True) [''1'', ''1'', ''1'', ''1'']"
  by (simp add: verifyProofLocally_def mock_proof_def)

text \<open>
  C5. An artifact from the prover's direct-evaluation fallback is never authorized in
  on-chain mode, whatever the rule commitment, destination, amount, signal vector and
  chain: the sentinel converts to the all-zero proof, which the contract's proof check
  refuses.
\<close>

theorem C5_fallback_never_authorized_on_chain:
  assumes "\<not> checkCircuitFiles penv"
    and "generatePaymentProof penv paymentPlan userRules = Inr z"
  shows "\<not> (authorized (verifyProofOnChain env (proof_obj z) sigs ruleHash payAddr amt)
            \<and> on_chain_mode (verifyProofOnChain env (proof_obj z) sigs ruleHash payAddr amt))"
proof -
  from assms have "proof_obj z = mock_proof (validateRulesManually penv paymentPlan userRules)"
    by (auto simp: fallback_artifact)
  then show ?thesis
    using mock_never_onchain [of env "validateRulesManually penv paymentPlan userRules" sigs
        ruleHash payAddr amt]
    by (auto simp: verifyProofOnChain_def Let_def split: option.splits)
qed

text \<open>
  On the sample chain the fallback artifact of the demo payment does reach the contract,
  and comes back unverified.
\<close>

theorem C5_fallback_never_authorized_on_chain_witness:
  "\<not> checkCircuitFiles no_artifacts_env
   \<and> generatePaymentProof no_artifacts_env demo_plan demo_rules
       = Inr \<lparr> proof_obj = mock_proof True, publicSignals = [''1''], isValid = True \<rparr>
   \<and> on_chain_mode (verifyProofOnChain demo_chain_env (mock_proof True) [''1''] ''0xabc''
        ''0xF2431b618B5b02923922c525885DBfFcdb9DE853'' 6)
   \<and> \<not> authorized (verifyProofOnChain demo_chain_env (mock_proof True) [''1''] ''0xabc''
        ''0xF2431b618B5b02923922c525885DBfFcdb9DE853'' 6)"
proof -
  have f: "\<not> checkCircuitFiles no_artifacts_env"
    by (simp add: checkCircuitFiles_def no_artifacts_env_def)
  have g: "generatePaymentProof no_artifacts_env demo_plan demo_rules
       = Inr \<lparr> proof_obj = mock_proof True, publicSignals = [''1''], isValid = True \<rparr>"
    by code_simp
  have m: "on_chain_mode (verifyProofOnChain demo_chain_env (mock_proof True) [''1''] ''0xabc''
        ''0xF2431b618B5b02923922c525885DBfFcdb9DE853'' 6)"
    by code_simp
  from C5_fallback_never_authorized_on_chain [OF f g, of demo_chain_env "[''1'']" "''0xabc''"
      "''0xF2431b618B5b02923922c525885DBfFcdb9DE853''" 6] f g m
  show ?thesis by simp
qed

section \<open>Properties of the pipeline\<close>

lemmas io_defs =
  io_bind_def io_call_def io_return_def io_throw_def saveProcessingLog_def sendLog_def

lemmas event_defs = plain_def is_verify_def is_execute_def is_generate_def

lemma guarded_plain: "\<forall>ev\<in>set xs. plain ev \<or> is_generate ev \<Longrightarrow> guarded ok xs"
  by (induction ok xs rule: guarded.induct) (auto simp: event_defs)

lemma guarded_append_plain:
  "\<forall>ev\<in>set xs. plain ev \<or> is_generate ev \<Longrightarrow> guarded ok (xs @ ys) = guarded ok ys"
  by (induction ok xs rule: guarded.induct) (auto simp: event_defs)

lemma guarded_then_plain:
  "guarded ok xs \<Longrightarrow> \<forall>ev\<in>set ys. plain ev \<Longrightarrow> guarded ok (xs @ ys)"
  by (induction ok xs rule: guarded.induct) (auto intro: guarded_plain)

lemma guarded_split:
  "guarded ok (pre @ ExecutePayment r # post) \<Longrightarrow>
     ok \<or> (\<exists>v. VerifyProofOnChain (Inr v) \<in> set pre \<and> authorized v)"
  by (induction ok pre rule: guarded.induct) (auto split: sum.splits)

text \<open>What each step adds to the history.\<close>

lemma step_commit_hist:
  "step_commit sys rules h = (out, h') \<Longrightarrow> \<exists>new. h' = h @ new \<and> (\<forall>ev\<in>set new. plain ev)"
  unfolding step_commit_def io_defs
  by (auto simp: event_defs split: sum.splits prod.splits if_splits option.splits)

lemma step_parse_hist:
  "step_parse sys input h = (out, h') \<Longrightarrow> \<exists>new. h' = h @ new \<and> (\<forall>ev\<in>set new. plain ev)"
  unfolding step_parse_def io_defs
  by (auto simp: event_defs split: sum.splits prod.splits if_splits option.splits)

lemma step_prove_hist:
  "step_prove sys invoiceData rules h = (out, h') \<Longrightarrow>
     \<exists>new. h' = h @ new \<and>
       (\<forall>ev\<in>set new. plain ev
          \<or> (\<exists>r. ev = GeneratePaymentProof r \<and> (\<forall>p z. out = Inr (p, z) \<longrightarrow> r = Inr z)))
       \<and> (\<forall>z. GeneratePaymentProof (Inr z) \<in> set new \<longrightarrow>
              (if db_saveProcessingLog sys ''zkp_generated'' \<and> logCallback sys ''zkp'' ''completed''
               then \<exists>p. out = Inr (p, z) else \<exists>e. out = Inl e))
       \<and> (\<forall>r. GeneratePaymentProof r \<in> set new \<longrightarrow>
              (\<exists>plan. zkpProver_generatePaymentProof sys plan rules = r))"
  unfolding step_prove_def io_defs Let_def
  by (auto simp: event_defs split: sum.splits prod.splits if_splits option.splits)

lemma step_pay_hist:
  "step_pay sys plan h = (out, h') \<Longrightarrow>
     \<exists>new. h' = h @ new \<and> guarded True new \<and> (\<forall>ev\<in>set new. \<not> is_generate ev)"
  unfolding step_pay_def io_defs Let_def
  by (auto simp: event_defs split: sum.splits prod.splits if_splits option.splits)

lemma step_verify_hist:
  assumes "step_verify sys rh plan z h = (out, h')"
  shows "\<exists>new. h' = h @ new \<and> guarded False new \<and> (\<forall>ev\<in>set new. \<not> is_generate ev)"
proof -
  let ?r = "onChainZKPVerifier_verifyProofOnChain sys (proof_obj z) (publicSignals z) rh
              (toAddress plan) (amount plan)"
  show ?thesis
  proof (cases "logCallback sys ''verify'' ''active''")
    case False
    with assms show ?thesis
      unfolding step_verify_def io_defs Let_def by (auto simp: event_defs)
  next
    case cb: True
    show ?thesis
    proof (cases ?r)
      case (Inl e)
      with assms cb show ?thesis
        unfolding step_verify_def io_defs Let_def by (auto simp: event_defs)
    next
      case (Inr v)
      show ?thesis
      proof (cases "authorized v")
        case False
        with assms cb Inr show ?thesis
          unfolding step_verify_def io_defs Let_def by (auto simp: event_defs)
      next
        case True
        show ?thesis
        proof (cases "db_saveProcessingLog sys ''zkp_verified''
                      \<and> logCallback sys ''verify'' ''completed''")
          case False
          with assms cb Inr True show ?thesis
            unfolding step_verify_def io_defs Let_def
            by (auto simp: event_defs split: if_splits)
        next
          case ok: True
          let ?h1 = "h @ [SendLog ''verify'' ''active'', VerifyProofOnChain (Inr v),
                       SaveProcessingLog ''zkp_verified'', SendLog ''verify'' ''completed'']"
          from assms cb Inr True ok have "step_pay sys plan ?h1 = (out, h')"
            unfolding step_verify_def io_defs Let_def by simp
          from step_pay_hist [OF this] obtain new where
            n: "h' = ?h1 @ new" "guarded True new" "\<forall>ev\<in>set new. \<not> is_generate ev" by blast
          then show ?thesis using True by (auto simp: event_defs)
        qed
      qed
    qed
  qed
qed

lemma invalid_branch_hist:
  "io_bind (sendLog sys ''zkp'' ''failed'')
     (\<lambda>_. io_return \<lparr> res_success = False, res_status = rule_violation \<rparr>) h = (out, h') \<Longrightarrow>
   \<exists>new. h' = h @ new \<and> (\<forall>ev\<in>set new. plain ev)
      \<and> (if logCallback sys ''zkp'' ''failed''
          then out = Inr \<lparr> res_success = False, res_status = rule_violation \<rparr>
          else \<exists>e. out = Inl e)"
  unfolding io_defs by (auto simp: event_defs split: if_splits)

lemma try_block_hist:
  assumes "try_block sys input rules [] = (out, h')"
  shows "guarded False h'"
    and "GeneratePaymentProof (Inr z) \<in> set h' \<Longrightarrow> \<not> isValid z \<Longrightarrow>
           (\<forall>ev\<in>set h'. \<not> is_verify ev \<and> \<not> is_execute ev)
           \<and> (if db_saveProcessingLog sys ''zkp_generated'' \<and> logCallback sys ''zkp'' ''completed''
                  \<and> logCallback sys ''zkp'' ''failed''
               then out = Inr \<lparr> res_success = False, res_status = rule_violation \<rparr>
               else \<exists>e. out = Inl e)"
    and "GeneratePaymentProof r \<in> set h' \<Longrightarrow>
           \<exists>plan. zkpProver_generatePaymentProof sys plan rules = r"
proof -
  let ?ok = "db_saveProcessingLog sys ''zkp_generated'' \<and> logCallback sys ''zkp'' ''completed''
                  \<and> logCallback sys ''zkp'' ''failed''"
  let ?B = "GeneratePaymentProof (Inr z) \<in> set h' \<longrightarrow> \<not> isValid z \<longrightarrow>
           (\<forall>ev\<in>set h'. \<not> is_verify ev \<and> \<not> is_execute ev)
           \<and> (if ?ok then out = Inr \<lparr> res_success = False, res_status = rule_violation \<rparr>
               else \<exists>e. out = Inl e)"
  let ?C = "GeneratePaymentProof r \<in> set h' \<longrightarrow>
           (\<exists>plan. zkpProver_generatePaymentProof sys plan rules = r)"
  obtain o1 h1 where c: "step_commit sys rules [] = (o1, h1)" by force
  from step_commit_hist [OF c] have p1: "\<forall>ev\<in>set h1. plain ev" by auto
  have "guarded False h' \<and> ?B \<and> ?C"
  proof (cases o1)
    case (Inl e)
    with assms c have "h' = h1" by (simp add: try_block_def io_bind_def)
    with p1 show ?thesis by (auto simp: event_defs intro: guarded_plain)
  next
    case rh: (Inr ruleHash)
    obtain o2 h2 where p: "step_parse sys input h1 = (o2, h2)" by force
    from step_parse_hist [OF p] p1 have p2: "\<forall>ev\<in>set h2. plain ev" by auto
    show ?thesis
    proof (cases o2)
      case (Inl e)
      with assms c rh p have "h' = h2" by (simp add: try_block_def io_bind_def)
      with p2 show ?thesis by (auto simp: event_defs intro: guarded_plain)
    next
      case inv: (Inr invoiceData)
      obtain o3 h3 where g: "step_prove sys invoiceData rules h2 = (o3, h3)" by force
      from step_prove_hist [OF g] obtain new3 where
        n3: "h3 = h2 @ new3"
            "\<forall>ev\<in>set new3. plain ev
               \<or> (\<exists>r. ev = GeneratePaymentProof r \<and> (\<forall>p z. o3 = Inr (p, z) \<longrightarrow> r = Inr z))"
            "\<forall>z. GeneratePaymentProof (Inr z) \<in> set new3 \<longrightarrow>
              (if db_saveProcessingLog sys ''zkp_generated'' \<and> logCallback sys ''zkp'' ''completed''
               then \<exists>p. o3 = Inr (p, z) else \<exists>e. o3 = Inl e)"
            "\<forall>r. GeneratePaymentProof r \<in> set new3 \<longrightarrow>
              (\<exists>plan. zkpProver_generatePaymentProof sys plan rules = r)"
        by blast
      have in3: "GeneratePaymentProof r \<in> set h3 \<Longrightarrow> GeneratePaymentProof r \<in> set new3" for r
        using n3(1) p2 by (auto simp: event_defs)
      have p3: "\<forall>ev\<in>set h3. plain ev \<or> is_generate ev"
        using n3(1,2) p2 by (auto simp: is_generate_def)
      have q3: "\<forall>ev\<in>set h3. \<not> is_verify ev \<and> \<not> is_execute ev"
        using n3(1,2) p2 by (auto simp: event_defs)
      have c3: "GeneratePaymentProof r \<in> set h3 \<longrightarrow>
           (\<exists>plan. zkpProver_generatePaymentProof sys plan rules = r)"
        using in3 n3(4) by blast
      show ?thesis
      proof (cases o3)
        case (Inl e)
        with assms c rh p inv g have h: "h' = h3" and o: "out = Inl e"
          by (simp_all add: try_block_def io_bind_def)
        have "guarded False h'" using h p3 by (auto intro: guarded_plain)
        moreover have ?B
        proof (intro impI)
          assume m: "GeneratePaymentProof (Inr z) \<in> set h'"
          with h have "GeneratePaymentProof (Inr z) \<in> set new3" by (simp add: in3)
          with n3(3) Inl have "\<not> (db_saveProcessingLog sys ''zkp_generated''
              \<and> logCallback sys ''zkp'' ''completed'')"
            by (auto split: if_splits)
          with h q3 o show "(\<forall>ev\<in>set h'. \<not> is_verify ev \<and> \<not> is_execute ev)
             \<and> (if ?ok then out = Inr \<lparr> res_success = False, res_status = rule_violation \<rparr>
                 else \<exists>e. out = Inl e)"
            by auto
        qed
        moreover have ?C using h c3 by simp
        ultimately show ?thesis by blast
      next
        case (Inr pz)
        then obtain plan z' where pz: "o3 = Inr (plan, z')" by (cases pz) auto
        have only: "GeneratePaymentProof (Inr z) \<in> set h3 \<Longrightarrow> z = z'"
          using n3(1,2) p2 pz by (auto simp: event_defs)
        have ok3: "GeneratePaymentProof (Inr z) \<in> set h3 \<Longrightarrow>
            db_saveProcessingLog sys ''zkp_generated'' \<and> logCallback sys ''zkp'' ''completed''"
          using in3 [of "Inr z"] n3(3) pz by (auto split: if_splits)
        show ?thesis
        proof (cases "isValid z'")
          case False
          with assms c rh p inv g pz have
            "io_bind (sendLog sys ''zkp'' ''failed'')
               (\<lambda>_. io_return \<lparr> res_success = False, res_status = rule_violation \<rparr>) h3 = (out, h')"
            by (simp add: try_block_def io_bind_def)
          from invalid_branch_hist [OF this] obtain new where
            n: "h' = h3 @ new" "\<forall>ev\<in>set new. plain ev"
               "if logCallback sys ''zkp'' ''failed''
                then out = Inr \<lparr> res_success = False, res_status = rule_violation \<rparr>
                else \<exists>e. out = Inl e"
            by blast
          have g': "guarded False h'"
            using n p3 by (auto intro!: guarded_plain)
          have q': "\<forall>ev\<in>set h'. \<not> is_verify ev \<and> \<not> is_execute ev"
            using n q3 by (auto simp: event_defs)
          have m': "GeneratePaymentProof x \<in> set h' \<Longrightarrow> GeneratePaymentProof x \<in> set h3" for x
            using n by (auto simp: event_defs)
          have ?B
          proof (intro impI)
            assume "GeneratePaymentProof (Inr z) \<in> set h'"
            then have "GeneratePaymentProof (Inr z) \<in> set h3" by (rule m')
            from ok3 [OF this] n(3) q'
            show "(\<forall>ev\<in>set h'. \<not> is_verify ev \<and> \<not> is_execute ev)
               \<and> (if ?ok then out = Inr \<lparr> res_success = False, res_status = rule_violation \<rparr>
                   else \<exists>e. out = Inl e)"
              by (auto split: if_splits)
          qed
          moreover have ?C using m' [of r] c3 by blast
          ultimately show ?thesis using g' by blast
        next
          case True
          with assms c rh p inv g pz have "step_verify sys ruleHash plan z' h3 = (out, h')"
            by (simp add: try_block_def io_bind_def)
          from step_verify_hist [OF this] obtain new where
            n: "h' = h3 @ new" "guarded False new" "\<forall>ev\<in>set new. \<not> is_generate ev" by blast
          have g': "guarded False h'" using n p3 by (simp add: guarded_append_plain)
          have m': "GeneratePaymentProof x \<in> set h' \<Longrightarrow> GeneratePaymentProof x \<in> set h3" for x
            using n by (auto simp: is_generate_def)
          have "GeneratePaymentProof (Inr z) \<in> set h' \<Longrightarrow> z = z'"
            using only m' by blast
          then have ?B using True by auto
          moreover have ?C using m' [of r] c3 by blast
          ultimately show ?thesis using g' by blast
        qed
      qed
    qed
  qed
  then show "guarded False h'"
    and "GeneratePaymentProof (Inr z) \<in> set h' \<Longrightarrow> \<not> isValid z \<Longrightarrow>
           (\<forall>ev\<in>set h'. \<not> is_verify ev \<and> \<not> is_execute ev)
           \<and> (if db_saveProcessingLog sys ''zkp_generated'' \<and> logCallback sys ''zkp'' ''completed''
                  \<and> logCallback sys ''zkp'' ''failed''
               then out = Inr \<lparr> res_success = False, res_status = rule_violation \<rparr>
               else \<exists>e. out = Inl e)"
    and "GeneratePaymentProof r \<in> set h' \<Longrightarrow>
           \<exists>plan. zkpProver_generatePaymentProof sys plan rules = r"
    by auto
qed

lemma processPayment_hist:
  "\<exists>out h new. try_block sys input rules [] = (out, h)
      \<and> snd (processPayment sys input rules) = h @ new \<and> (\<forall>ev\<in>set new. plain ev)
      \<and> (\<forall>r. out = Inr r \<longrightarrow> fst (processPayment sys input rules) = Inr r)
      \<and> (\<forall>e. out = Inl e \<longrightarrow> fst (processPayment sys input rules)
             = (if db_saveProcessingLog sys ''error''
                then Inr \<lparr> res_success = False, res_status = error_status \<rparr>
                else Inl ''saveProcessingLog failed''))"
  unfolding processPayment_def io_defs
  by (cases "try_block sys input rules []") (auto simp: event_defs split: sum.splits)

text \<open>
  For the repository's prover the flag \<^verbatim>\<open>isValid\<close> of a result is the test of its
  overall-valid bit against '1', in the proving path and in the fallback.
\<close>

lemma generatePaymentProof_flag:
  "generatePaymentProof penv paymentPlan userRules = Inr z \<Longrightarrow>
     isValid z = (overall_valid_bit z = Some ''1'')"
  by (auto simp: generatePaymentProof_def overall_valid_bit_def signal_of_bool_def Let_def
      split: if_splits sum.splits list.splits)

text \<open>
  C3 (as amended). In every run of the pipeline, with any collaborators: (1) a call of
  the payment executor comes after a call of the verifier that returned an authorizing
  answer; (2) when the proof generated in the run is not valid (flag \<^verbatim>\<open>isValid\<close> false),
  the verifier and the payment executor are never called, and the run ends with the
  rule-violation result when the log store accepts the record of the proof and the log
  callback returns for the two log lines that follow; when one of these three throws, the
  catch block runs, and the run ends with the error result if the log store accepts the
  error record and with a rejected promise if it throws again; (3) with the repository's
  prover as collaborator, the flag of the generated proof is false exactly when its
  overall-valid bit \<^verbatim>\<open>publicSignals[0]\<close> is not '1', in particular when it is '0'.
\<close>

theorem C3_pipeline_gating:
  "(\<forall>pre r post. snd (processPayment sys input rules) = pre @ ExecutePayment r # post \<longrightarrow>
        (\<exists>v. VerifyProofOnChain (Inr v) \<in> set pre \<and> authorized v))
   \<and> (\<forall>z. GeneratePaymentProof (Inr z) \<in> set (snd (processPayment sys input rules))
          \<and> \<not> isValid z \<longrightarrow>
        (\<forall>ev\<in>set (snd (processPayment sys input rules)). \<not> is_verify ev \<and> \<not> is_execute ev)
        \<and> fst (processPayment sys input rules)
            = (if db_saveProcessingLog sys ''zkp_generated'' \<and> logCallback sys ''zkp'' ''completed''
                  \<and> logCallback sys ''zkp'' ''failed''
               then Inr \<lparr> res_success = False, res_status = rule_violation \<rparr>
               else if db_saveProcessingLog sys ''error''
               then Inr \<lparr> res_success = False, res_status = error_status \<rparr>
               else Inl ''saveProcessingLog failed''))
   \<and> (\<forall>penv z. zkpProver_generatePaymentProof sys = generatePaymentProof penv
          \<and> GeneratePaymentProof (Inr z) \<in> set (snd (processPayment sys input rules)) \<longrightarrow>
        isValid z = (overall_valid_bit z = Some ''1''))"
proof -
  let ?ok = "db_saveProcessingLog sys ''zkp_generated'' \<and> logCallback sys ''zkp'' ''completed''
                  \<and> logCallback sys ''zkp'' ''failed''"
  from processPayment_hist [of sys input rules] obtain out h new where
    t: "try_block sys input rules [] = (out, h)" and
    s: "snd (processPayment sys input rules) = h @ new" and
    n: "\<forall>ev\<in>set new. plain ev" and
    f: "\<forall>r. out = Inr r \<longrightarrow> fst (processPayment sys input rules) = Inr r" and
    e: "\<forall>e. out = Inl e \<longrightarrow> fst (processPayment sys input rules)
             = (if db_saveProcessingLog sys ''error''
                then Inr \<lparr> res_success = False, res_status = error_status \<rparr>
                else Inl ''saveProcessingLog failed'')"
    by blast
  have in_h: "GeneratePaymentProof x \<in> set h"
    if "GeneratePaymentProof x \<in> set (snd (processPayment sys input rules))" for x
    using that s n by (auto simp: event_defs)
  have g: "guarded False (h @ new)"
    using try_block_hist(1) [OF t] n by (rule guarded_then_plain)
  have a: "\<exists>v. VerifyProofOnChain (Inr v) \<in> set pre \<and> authorized v"
    if "snd (processPayment sys input rules) = pre @ ExecutePayment r # post" for pre r post
    using guarded_split [of False pre r post] g s that by simp
  have b: "(\<forall>ev\<in>set (snd (processPayment sys input rules)). \<not> is_verify ev \<and> \<not> is_execute ev)
        \<and> fst (processPayment sys input rules)
            = (if ?ok then Inr \<lparr> res_success = False, res_status = rule_violation \<rparr>
               else if db_saveProcessingLog sys ''error''
               then Inr \<lparr> res_success = False, res_status = error_status \<rparr>
               else Inl ''saveProcessingLog failed'')"
    if m: "GeneratePaymentProof (Inr z) \<in> set (snd (processPayment sys input rules))"
      and i: "\<not> isValid z" for z
  proof -
    from try_block_hist(2) [OF t in_h [OF m] i] have
      q: "\<forall>ev\<in>set h. \<not> is_verify ev \<and> \<not> is_execute ev" and
      o: "if ?ok then out = Inr \<lparr> res_success = False, res_status = rule_violation \<rparr>
          else \<exists>e. out = Inl e"
      by blast+
    have "\<forall>ev\<in>set (snd (processPayment sys input rules)). \<not> is_verify ev \<and> \<not> is_execute ev"
      using q s n by (auto simp: event_defs)
    moreover have "fst (processPayment sys input rules)
            = (if ?ok then Inr \<lparr> res_success = False, res_status = rule_violation \<rparr>
               else if db_saveProcessingLog sys ''error''
               then Inr \<lparr> res_success = False, res_status = error_status \<rparr>
               else Inl ''saveProcessingLog failed'')"
    proof (cases ?ok)
      case True
      with o f show ?thesis by simp
    next
      case False
      with o obtain e' where "out = Inl e'" by auto
      with e False show ?thesis by simp
    qed
    ultimately show ?thesis by blast
  qed
  have c: "isValid z = (overall_valid_bit z = Some ''1'')"
    if p: "zkpProver_generatePaymentProof sys = generatePaymentProof penv"
      and m: "GeneratePaymentProof (Inr z) \<in> set (snd (processPayment sys input rules))"
    for penv z
  proof -
    from try_block_hist(3) [OF t in_h [OF m]] p obtain plan where
      "generatePaymentProof penv plan rules = Inr z" by auto
    then show ?thesis by (rule generatePaymentProof_flag)
  qed
  from a b c show ?thesis by blast
qed

text \<open>The sample prover and verifier on the two sample plans.\<close>

lemma demo_proof_valid:
  "generatePaymentProof artifacts_env demo_plan demo_rules
     = Inr \<lparr> proof_obj = demo_groth16_proof, publicSignals = [''1'', ''1'', ''1'', ''1''],
             isValid = True \<rparr>"
  by code_simp

lemma demo_proof_over_cap:
  "generatePaymentProof artifacts_env over_cap_plan demo_rules
     = Inr \<lparr> proof_obj = demo_groth16_proof, publicSignals = [''0'', ''1'', ''0'', ''1''],
             isValid = False \<rparr>"
  by code_simp

lemma demo_local_verification:
  "verifyProofOnChain local_chain_env demo_groth16_proof [''1'', ''1'', ''1'', ''1''] ''0xabc''
     (toAddress demo_plan) (amount demo_plan) = VBool True"
  by code_simp

lemmas run_defs =
  processPayment_def try_block_def step_commit_def step_parse_def step_prove_def
  step_verify_def step_pay_def io_defs demo_system_def failing_log_system_def
  double_failing_log_system_def demo_input_def opt_truthy_def Let_def

text \<open>
  All parts on sample runs: the demo payment is verified and then executed; the payment
  over the cap yields a proof with overall bit '0' from the repository's prover and ends
  as a rule violation; with a log store that refuses both the record of the proof and the
  error record, the same payment ends in a rejected promise.
\<close>

theorem C3_pipeline_gating_witness:
  "snd (processPayment (demo_system demo_plan) demo_input demo_rules)
     = [SendLog ''commit'' ''active'', CommitRules, SaveProcessingLog ''rule_committed'',
        SendLog ''commit'' ''completed'', SendLog ''parse'' ''active'', ParseInvoice,
        SaveProcessingLog ''invoice_parsed'', SendLog ''parse'' ''completed'',
        SendLog ''plan'' ''active'', CreatePaymentPlan, SaveProcessingLog ''payment_planned'',
        SendLog ''plan'' ''completed'', SendLog ''zkp'' ''active'',
        GeneratePaymentProof (Inr \<lparr> proof_obj = demo_groth16_proof,
          publicSignals = [''1'', ''1'', ''1'', ''1''], isValid = True \<rparr>),
        SaveProcessingLog ''zkp_generated'', SendLog ''zkp'' ''completed'',
        SendLog ''verify'' ''active'', VerifyProofOnChain (Inr (VBool True)),
        SaveProcessingLog ''zkp_verified'', SendLog ''verify'' ''completed'',
        SendLog ''payment'' ''active'']
       @ ExecutePayment (Inr \<lparr> pr_success = True \<rparr>)
       # [SaveProcessingLog ''payment_executed'', SendLog ''payment'' ''completed'']
   \<and> authorized (VBool True)
   \<and> GeneratePaymentProof (Inr \<lparr> proof_obj = demo_groth16_proof,
          publicSignals = [''0'', ''1'', ''0'', ''1''], isValid = False \<rparr>)
       \<in> set (snd (processPayment (demo_system over_cap_plan) demo_input demo_rules))
   \<and> zkpProver_generatePaymentProof (demo_system over_cap_plan)
       = generatePaymentProof artifacts_env
   \<and> overall_valid_bit \<lparr> proof_obj = demo_groth16_proof,
          publicSignals = [''0'', ''1'', ''0'', ''1''], isValid = False \<rparr> = Some ''0''
   \<and> fst (processPayment (demo_system over_cap_plan) demo_input demo_rules)
       = Inr \<lparr> res_success = False, res_status = rule_violation \<rparr>
   \<and> GeneratePaymentProof (Inr \<lparr> proof_obj = demo_groth16_proof,
          publicSignals = [''0'', ''1'', ''0'', ''1''], isValid = False \<rparr>)
       \<in> set (snd (processPayment double_failing_log_system demo_input demo_rules))
   \<and> fst (processPayment double_failing_log_system demo_input demo_rules)
       = Inl ''saveProcessingLog failed''"
proof -
  let ?z = "\<lparr> proof_obj = demo_groth16_proof, publicSignals = [''0'', ''1'', ''0'', ''1''],
              isValid = False \<rparr>"
  have r1: "snd (processPayment (demo_system demo_plan) demo_input demo_rules)
     = [SendLog ''commit'' ''active'', CommitRules, SaveProcessingLog ''rule_committed'',
        SendLog ''commit'' ''completed'', SendLog ''parse'' ''active'', ParseInvoice,
        SaveProcessingLog ''invoice_parsed'', SendLog ''parse'' ''completed'',
        SendLog ''plan'' ''active'', CreatePaymentPlan, SaveProcessingLog ''payment_planned'',
        SendLog ''plan'' ''completed'', SendLog ''zkp'' ''active'',
        GeneratePaymentProof (Inr \<lparr> proof_obj = demo_groth16_proof,
          publicSignals = [''1'', ''1'', ''1'', ''1''], isValid = True \<rparr>),
        SaveProcessingLog ''zkp_generated'', SendLog ''zkp'' ''completed'',
        SendLog ''verify'' ''active'', VerifyProofOnChain (Inr (VBool True)),
        SaveProcessingLog ''zkp_verified'', SendLog ''verify'' ''completed'',
        SendLog ''payment'' ''active'']
       @ ExecutePayment (Inr \<lparr> pr_success = True \<rparr>)
       # [SaveProcessingLog ''payment_executed'', SendLog ''payment'' ''completed'']"
    by (simp add: run_defs demo_proof_valid demo_local_verification)
  have r2: "GeneratePaymentProof (Inr ?z)
       \<in> set (snd (processPayment (demo_system over_cap_plan) demo_input demo_rules))"
    by (simp add: run_defs demo_proof_over_cap)
  have r3: "GeneratePaymentProof (Inr ?z)
       \<in> set (snd (processPayment double_failing_log_system demo_input demo_rules))"
    by (simp add: run_defs demo_proof_over_cap)
  have o2: "db_saveProcessingLog (demo_system over_cap_plan) ''zkp_generated''
      \<and> logCallback (demo_system over_cap_plan) ''zkp'' ''completed''
      \<and> logCallback (demo_system over_cap_plan) ''zkp'' ''failed''"
    by (simp add: demo_system_def)
  have o3: "\<not> db_saveProcessingLog double_failing_log_system ''zkp_generated''
      \<and> \<not> db_saveProcessingLog double_failing_log_system ''error''"
    by (simp add: double_failing_log_system_def)
  have p: "zkpProver_generatePaymentProof (demo_system over_cap_plan)
       = generatePaymentProof artifacts_env"
    by (simp add: demo_system_def)
  have i: "\<not> isValid ?z" by simp
  note A = C3_pipeline_gating [of "demo_system over_cap_plan" demo_input demo_rules]
  note B = C3_pipeline_gating [of double_failing_log_system demo_input demo_rules]
  from A p r2 have bit: "isValid ?z = (overall_valid_bit ?z = Some ''1'')" by blast
  from A r2 i o2 have f2: "fst (processPayment (demo_system over_cap_plan) demo_input demo_rules)
       = Inr \<lparr> res_success = False, res_status = rule_violation \<rparr>"
    by fastforce
  from B r3 i o3 have f3: "fst (processPayment double_failing_log_system demo_input demo_rules)
       = Inl ''saveProcessingLog failed''"
    by fastforce
  have b0: "overall_valid_bit ?z = Some ''0''" by (simp add: overall_valid_bit_def)
  from r1 r2 r3 p b0 f2 f3 show ?thesis by simp
qed

text \<open>
  C3 as stated fails in its first part: when the log store refuses the record of the
  generated proof, a run whose proof has overall bit 0 ends with the error result, not
  with the rule-violation result.
\<close>

theorem C3_invalid_proof_ends_in_error:
  "GeneratePaymentProof (Inr \<lparr> proof_obj = demo_groth16_proof,
          publicSignals = [''0'', ''1'', ''0'', ''1''], isValid = False \<rparr>)
       \<in> set (snd (processPayment failing_log_system demo_input demo_rules))
   \<and> fst (processPayment failing_log_system demo_input demo_rules)
       = Inr \<lparr> res_success = False, res_status = error_status \<rparr>"
  by (simp add: run_defs demo_proof_over_cap)

section \<open>Properties of the rule encoder\<close>

lemma sort_of_permutation: "mset xs = mset ys \<Longrightarrow> sort xs = sort ys"
  by (metis mset_sort properties_for_sort sorted_sort)

text \<open>
  C8. The commitment is deterministic and independent of the order in which the
  destinations are presented: hashing the rule object again after a first call (which
  left its address array sorted) gives the same digest, and two rule sets with the same
  destinations in any order, the same cap and the same hours get the same digest.
\<close>

theorem C8_commitment_order_independent:
  "fst (hashRules keccak256 (snd (hashRules keccak256 r))) = fst (hashRules keccak256 r)
   \<and> (mset (allowedAddresses r1) = mset (allowedAddresses r2) \<and> maxAmount r1 = maxAmount r2
        \<and> allowedHours r1 = allowedHours r2
      \<longrightarrow> fst (hashRules keccak256 r1) = fst (hashRules keccak256 r2))"
  by (auto simp: hashRules_def Let_def sorted_sort_id dest: sort_of_permutation)

theorem C8_commitment_order_independent_witness:
  "mset (allowedAddresses demo_rules) = mset (rev (allowedAddresses demo_rules))
   \<and> rev (allowedAddresses demo_rules) \<noteq> allowedAddresses demo_rules
   \<and> fst (hashRules (\<lambda>bytes. bytes) demo_rules)
       = fst (hashRules (\<lambda>bytes. bytes)
               (demo_rules \<lparr> allowedAddresses := rev (allowedAddresses demo_rules) \<rparr>))"
proof -
  have d: "rev (allowedAddresses demo_rules) \<noteq> allowedAddresses demo_rules"
    by (simp add: demo_rules_def)
  from C8_commitment_order_independent [of "\<lambda>bytes. bytes" demo_rules demo_rules
      "demo_rules \<lparr> allowedAddresses := rev (allowedAddresses demo_rules) \<rparr>"] d
  show ?thesis by simp
qed

section \<open>Properties of the circuits\<close>

lemma lc1_loop_horner:
  "lc1_loop bs e2 acc = acc + e2 * horner_sum id 2 bs"
  by (induction bs arbitrary: e2 acc) (simp_all add: algebra_simps)

lemma horner_of_bool:
  "horner_sum id (2::'a::field) (map of_bool bs) = of_nat (horner_sum of_bool 2 bs)"
  by (induction bs) simp_all

lemma bits_are_bools:
  "\<forall>b\<in>set (outs :: 'a::field list). b * (b - 1) = 0 \<Longrightarrow> outs = map of_bool (map (\<lambda>b. b = 1) outs)"
  by (induction outs) auto

lemma Num2Bits_value:
  fixes outs :: "'a::field list"
  assumes c: "Num2Bits n x outs"
  shows "\<exists>m. m < 2 ^ n \<and> x = of_nat m \<and> (\<forall>i<n. outs ! i = of_bool (bit m i))"
proof -
  let ?bs = "map (\<lambda>b. b = 1) outs"
  let ?m = "horner_sum of_bool 2 ?bs :: nat"
  from c have len: "length outs = n" and bools: "\<forall>b\<in>set outs. b * (b - 1) = 0"
    and lc: "lc1_loop outs 1 0 = x"
    by (auto simp: Num2Bits_def)
  from bits_are_bools [OF bools] have o: "outs = map of_bool ?bs" .
  have "lc1_loop outs 1 0 = horner_sum id 2 (map of_bool ?bs)"
    using o by (simp add: lc1_loop_horner)
  also have "\<dots> = of_nat ?m" by (rule horner_of_bool)
  finally have e: "x = of_nat ?m" using lc by simp
  have "?m < 2 ^ length ?bs" by (rule horner_sum_of_bool_2_less)
  then have m: "?m < 2 ^ n" using len by simp
  have "outs ! i = of_bool (bit ?m i)" if "i < n" for i
  proof -
    have "bit ?m i = (?bs ! i)"
      using that len by (simp add: bit_horner_sum_bit_iff)
    moreover have "outs ! i = of_bool (?bs ! i)"
      using that len by (subst o) simp
    ultimately show ?thesis by simp
  qed
  with e m show ?thesis by blast
qed

lemma Num2Bits_sound:
  fixes outs :: "'a::field list"
  assumes inj: "inj_on (of_nat :: nat \<Rightarrow> 'a) {..<2 ^ n}"
    and v: "v < 2 ^ n"
    and c: "Num2Bits n (of_nat v) outs"
    and i: "i < n"
  shows "outs ! i = of_bool (bit v i)"
proof -
  from Num2Bits_value [OF c] obtain m where
    m: "m < 2 ^ n" "(of_nat v :: 'a) = of_nat m" "\<forall>i<n. outs ! i = of_bool (bit m i)"
    by blast
  from inj v m(1) m(2) have "v = m" by (auto dest: inj_onD)
  with m(3) i show ?thesis by simp
qed

lemma top_bit:
  assumes "v < 2 ^ (n + 1)"
  shows "bit (v::nat) n = (2 ^ n \<le> v)"
proof (cases "2 ^ n \<le> v")
  case True
  with assms have "v div 2 ^ n = 1"
    by (intro div_nat_eqI) simp_all
  with True show ?thesis by (simp add: bit_iff_odd)
next
  case False
  then have "v div 2 ^ n = 0" by simp
  with False show ?thesis by (simp add: bit_iff_odd)
qed

lemma LessThan_sound:
  fixes out :: "'a::field"
  assumes inj: "inj_on (of_nat :: nat \<Rightarrow> 'a) {..<2 ^ (n + 1)}"
    and a: "a < 2 ^ n" and b: "b \<le> 2 ^ n"
    and c: "LessThan n (of_nat a) (of_nat b) bits out"
  shows "out = of_bool (a < b)"
proof -
  let ?v = "a + 2 ^ n - b"
  have e: "(of_nat ?v :: 'a) = of_nat a + 2 ^ n - of_nat b"
    using b by simp
  have v: "?v < 2 ^ (n + 1)" using a b by simp
  from c have n2b: "Num2Bits (n + 1) (of_nat ?v) bits" and o: "out = 1 - bits ! n"
    by (simp_all add: LessThan_def e)
  from Num2Bits_sound [OF inj v n2b, of n] have "bits ! n = of_bool (bit ?v n)" by simp
  also have "bit ?v n = (2 ^ n \<le> ?v)" using v by (rule top_bit)
  also have "\<dots> = (b \<le> a)" using b by auto
  finally show ?thesis using o by (cases "a < b") auto
qed

lemma LessEqThan_sound:
  fixes out :: "'a::field"
  assumes inj: "inj_on (of_nat :: nat \<Rightarrow> 'a) {..<2 ^ (n + 1)}"
    and a: "a < 2 ^ n" and b: "b < 2 ^ n"
    and c: "LessEqThan n (of_nat a) (of_nat b) bits out"
  shows "out = of_bool (a \<le> b)"
proof -
  from c have "LessThan n (of_nat a) (of_nat (b + 1)) bits out"
    by (simp add: LessEqThan_def add.commute)
  from LessThan_sound [OF inj a _ this] b show ?thesis by (auto simp: less_Suc_eq_le)
qed

lemma GreaterEqThan_sound:
  fixes out :: "'a::field"
  assumes inj: "inj_on (of_nat :: nat \<Rightarrow> 'a) {..<2 ^ (n + 1)}"
    and a: "a < 2 ^ n" and b: "b < 2 ^ n"
    and c: "GreaterEqThan n (of_nat a) (of_nat b) bits out"
  shows "out = of_bool (b \<le> a)"
proof -
  from c have "LessThan n (of_nat b) (of_nat (a + 1)) bits out"
    by (simp add: GreaterEqThan_def add.commute)
  from LessThan_sound [OF inj b _ this] a show ?thesis by (auto simp: less_Suc_eq_le)
qed

lemma IsZero_sound: "IsZero (x::'a::field) i out \<Longrightarrow> out = of_bool (x = 0)"
  by (auto simp: IsZero_def)

lemma IsEqual_sound: "IsEqual (x::'a::field) y i out \<Longrightarrow> out = of_bool (x = y)"
  by (auto simp: IsEqual_def dest!: IsZero_sound)

lemma OR_sound: "OR (of_bool p :: 'a::field) (of_bool q) out \<Longrightarrow> out = of_bool (p \<or> q)"
  by (cases p; cases q) (simp_all add: OR_def)

lemma AND_sound: "AND (of_bool p :: 'a::field) (of_bool q) out \<Longrightarrow> out = of_bool (p \<and> q)"
  by (cases p; cases q) (simp_all add: AND_def)

lemma Num2Bits_complete:
  assumes "v < 2 ^ n"
  shows "Num2Bits n (of_nat v :: 'a::field) (Num2Bits_out n v)"
proof -
  have "Num2Bits_out n v = (map of_bool (map (bit v) [0..<n]) :: 'a list)"
    by (simp add: Num2Bits_out_def)
  then have "lc1_loop (Num2Bits_out n v :: 'a list) 1 0 = of_nat (horner_sum of_bool 2 (map (bit v) [0..<n]))"
    by (simp only: lc1_loop_horner horner_of_bool) simp
  also have "horner_sum of_bool 2 (map (bit v) [0..<n]) = take_bit n v"
    by (rule horner_sum_bit_eq_take_bit)
  also have "take_bit n v = v" using assms by (simp add: take_bit_nat_eq_self)
  finally show ?thesis by (auto simp: Num2Bits_def Num2Bits_out_def)
qed

lemma LessThan_complete:
  assumes "a < 2 ^ n" "b \<le> 2 ^ n"
  shows "LessThan n (of_nat a :: 'a::field) (of_nat b) (LessThan_bits n a b) (LessThan_out n a b)"
proof -
  have "(of_nat (a + 2 ^ n - b) :: 'a) = of_nat a + 2 ^ n - of_nat b"
    using assms by simp
  moreover have "a + 2 ^ n - b < 2 ^ (n + 1)" using assms by simp
  ultimately show ?thesis
    using Num2Bits_complete [of "a + 2 ^ n - b" "n + 1", where 'a = 'a]
    by (simp add: LessThan_def LessThan_bits_def LessThan_out_def)
qed

lemma IsZero_complete: "IsZero (x::'a::field) (IsZero_inv x) (IsZero_out x)"
  by (simp add: IsZero_def IsZero_out_def IsZero_inv_def)

lemma inj_on_smaller:
  "inj_on (of_nat :: nat \<Rightarrow> 'a::field) {..<2 ^ 65} \<Longrightarrow> inj_on (of_nat :: nat \<Rightarrow> 'a) {..<2 ^ (8 + 1)}"
  by (rule inj_on_subset) auto

lemma AddressWhitelistCheck_sound:
  assumes "AddressWhitelistCheck (t::'a::field) a1 a2 a3 c v"
  shows "v = of_bool (t = a1 \<or> t = a2 \<or> t = a3)"
proof -
  from assms have e: "eq1_out c = of_bool (t = a1)" "eq2_out c = of_bool (t = a2)"
      "eq3_out c = of_bool (t = a3)"
    by (auto simp: AddressWhitelistCheck_def dest: IsEqual_sound)
  from assms have o: "OR (eq1_out c) (eq2_out c) (or1_out c)"
      "OR (or1_out c) (eq3_out c) (or2_out c)" "v = or2_out c"
    by (simp_all add: AddressWhitelistCheck_def)
  from o(1) have o1: "or1_out c = of_bool (t = a1 \<or> t = a2)"
    unfolding e by (rule OR_sound)
  from o(2) have "or2_out c = of_bool ((t = a1 \<or> t = a2) \<or> t = a3)"
    unfolding e o1 by (rule OR_sound)
  with o(3) show ?thesis by simp
qed

lemma TimeConstraintCheck_sound:
  fixes v :: "'a::field"
  assumes inj: "inj_on (of_nat :: nat \<Rightarrow> 'a) {..<2 ^ (8 + 1)}"
    and r: "h < 2 ^ 8" "lo < 2 ^ 8" "hi < 2 ^ 8"
    and c: "TimeConstraintCheck (of_nat h) (of_nat lo) (of_nat hi) w v"
  shows "v = of_bool (lo \<le> h \<and> h \<le> hi)"
proof -
  from c have g: "GreaterEqThan 8 (of_nat h :: 'a) (of_nat lo) (geq_bits w) (geq_out w)"
    and l: "LessEqThan 8 (of_nat h :: 'a) (of_nat hi) (leq_bits w) (leq_out w)"
    and a: "AND (geq_out w) (leq_out w) (and_out w)" and v: "v = and_out w"
    by (simp_all add: TimeConstraintCheck_def)
  note G = GreaterEqThan_sound [OF inj r(1) r(2) g]
  note L = LessEqThan_sound [OF inj r(1) r(3) l]
  from a have "and_out w = of_bool (lo \<le> h \<and> h \<le> hi)"
    unfolding G L by (rule AND_sound)
  with v show ?thesis by simp
qed

lemma PaymentRules_complete:
  assumes "paymentAmount i < 2 ^ 64" "in_maxAmount i < 2 ^ 64"
    "paymentTimestamp i < 2 ^ 8" "minHour i < 2 ^ 8" "maxHour i < 2 ^ 8"
  shows "PaymentRules (PaymentRules_witness i :: 'a::field PaymentRules_signals)"
proof -
  have a: "LessEqThan 64 (of_nat (paymentAmount i) :: 'a) (of_nat (in_maxAmount i))
      (LessThan_bits 64 (paymentAmount i) (in_maxAmount i + 1))
      (LessThan_out 64 (paymentAmount i) (in_maxAmount i + 1))"
    using LessThan_complete [of "paymentAmount i" 64 "in_maxAmount i + 1", where 'a = 'a] assms
    by (simp add: LessEqThan_def add.commute)
  have g: "GreaterEqThan 8 (of_nat (paymentTimestamp i) :: 'a) (of_nat (minHour i))
      (LessThan_bits 8 (minHour i) (paymentTimestamp i + 1))
      (LessThan_out 8 (minHour i) (paymentTimestamp i + 1))"
    using LessThan_complete [of "minHour i" 8 "paymentTimestamp i + 1", where 'a = 'a] assms
    by (simp add: GreaterEqThan_def add.commute)
  have l: "LessEqThan 8 (of_nat (paymentTimestamp i) :: 'a) (of_nat (maxHour i))
      (LessThan_bits 8 (paymentTimestamp i) (maxHour i + 1))
      (LessThan_out 8 (paymentTimestamp i) (maxHour i + 1))"
    using LessThan_complete [of "paymentTimestamp i" 8 "maxHour i + 1", where 'a = 'a] assms
    by (simp add: LessEqThan_def add.commute)
  show ?thesis
    using a g l
    by (simp add: PaymentRules_def PaymentRules_witness_def Let_def AddressWhitelistCheck_def
        AddressWhitelistCheck_witness_def TimeConstraintCheck_def TimeConstraintCheck_witness_def
        IsEqual_def IsZero_complete AND_def OR_def)
qed

lemma inj_on_of_nat_rat: "inj_on (of_nat :: nat \<Rightarrow> rat) A"
  by (rule inj_onI) simp

text \<open>
  C1. For inputs within the comparator widths (amount and cap below 2^64, the three hour
  values below 2^8), in every assignment that satisfies the constraints of PaymentRules
  the outputs are the reference booleans: addressValid is 1 exactly when the payment
  address equals one of the three allowed addresses, amountValid is 1 exactly when
  amount \<le> cap, timeValid is 1 exactly when minHour \<le> hour \<le> maxHour, each is 0
  otherwise, and isValid is the conjunction of the three. (The witness the circuit
  computes for such inputs satisfies the constraints: \<open>PaymentRules_complete\<close>.)
\<close>

theorem C1_PaymentRules_outputs:
  fixes s :: "'a::field PaymentRules_signals"
  assumes inj: "inj_on (of_nat :: nat \<Rightarrow> 'a) {..<2 ^ 65}"
    and am: "paymentAmount (inputs s) = of_nat amt" "amt < 2 ^ 64"
    and cp: "in_maxAmount (inputs s) = of_nat cap" "cap < 2 ^ 64"
    and ts: "paymentTimestamp (inputs s) = of_nat h" "h < 2 ^ 8"
    and lo: "minHour (inputs s) = of_nat lo" "lo < 2 ^ 8"
    and hi: "maxHour (inputs s) = of_nat hi" "hi < 2 ^ 8"
    and sat: "PaymentRules s"
  shows "out_addressValid s
           = of_bool (paymentAddress (inputs s) = allowedAddress1 (inputs s)
                      \<or> paymentAddress (inputs s) = allowedAddress2 (inputs s)
                      \<or> paymentAddress (inputs s) = allowedAddress3 (inputs s))
         \<and> out_amountValid s = of_bool (amt \<le> cap)
         \<and> out_timeValid s = of_bool (lo \<le> h \<and> h \<le> hi)
         \<and> out_isValid s
             = of_bool (out_addressValid s = 1 \<and> out_amountValid s = 1 \<and> out_timeValid s = 1)
         \<and> out_isValid s = out_addressValid s * out_amountValid s * out_timeValid s"
proof -
  let ?A = "paymentAddress (inputs s) = allowedAddress1 (inputs s)
            \<or> paymentAddress (inputs s) = allowedAddress2 (inputs s)
            \<or> paymentAddress (inputs s) = allowedAddress3 (inputs s)"
  from sat have a: "AddressWhitelistCheck (paymentAddress (inputs s)) (allowedAddress1 (inputs s))
        (allowedAddress2 (inputs s)) (allowedAddress3 (inputs s))
        (addressCheck s) (addressCheck_isValid s)"
    and m: "LessEqThan 64 (paymentAmount (inputs s)) (in_maxAmount (inputs s))
          (amountCheck_bits s) (amountCheck_out s)"
    and t: "TimeConstraintCheck (paymentTimestamp (inputs s)) (minHour (inputs s))
          (maxHour (inputs s)) (timeCheck s) (timeCheck_isValid s)"
    and g: "AND (addressCheck_isValid s) (amountCheck_out s) (andGate_out s)"
           "AND (andGate_out s) (timeCheck_isValid s) (finalAnd_out s)"
    and o: "out_isValid s = finalAnd_out s" "out_addressValid s = addressCheck_isValid s"
           "out_amountValid s = amountCheck_out s" "out_timeValid s = timeCheck_isValid s"
    by (simp_all add: PaymentRules_def)
  have inj64: "inj_on (of_nat :: nat \<Rightarrow> 'a) {..<2 ^ (64 + 1)}" using inj by simp
  note A = AddressWhitelistCheck_sound [OF a]
  note M = LessEqThan_sound [OF inj64 am(2) cp(2) m [unfolded am(1) cp(1)]]
  note T = TimeConstraintCheck_sound [OF inj_on_smaller [OF inj] ts(2) lo(2) hi(2)
      t [unfolded ts(1) lo(1) hi(1)]]
  have "andGate_out s = of_bool (?A \<and> amt \<le> cap)"
    using g(1) unfolding A M by (rule AND_sound)
  with g(2) have F: "finalAnd_out s = of_bool ((?A \<and> amt \<le> cap) \<and> lo \<le> h \<and> h \<le> hi)"
    unfolding T by (auto dest: AND_sound)
  have P: "finalAnd_out s = addressCheck_isValid s * amountCheck_out s * timeCheck_isValid s"
    using g by (simp add: AND_def)
  from A M T F P o show ?thesis by simp
qed

text \<open>
  On the spec's example the circuit's own witness satisfies the constraints and all four
  outputs are 1 (over the rationals, a field in which all naturals are distinct).
\<close>

theorem C1_PaymentRules_outputs_witness:
  "inj_on (of_nat :: nat \<Rightarrow> rat) {..<2 ^ 65}
   \<and> PaymentRules (PaymentRules_witness example_input :: rat PaymentRules_signals)
   \<and> out_addressValid (PaymentRules_witness example_input :: rat PaymentRules_signals) = 1
   \<and> out_amountValid (PaymentRules_witness example_input :: rat PaymentRules_signals) = 1
   \<and> out_timeValid (PaymentRules_witness example_input :: rat PaymentRules_signals) = 1
   \<and> out_isValid (PaymentRules_witness example_input :: rat PaymentRules_signals) = 1"
proof -
  let ?s = "PaymentRules_witness example_input :: rat PaymentRules_signals"
  have i: "inj_on (of_nat :: nat \<Rightarrow> rat) {..<2 ^ 65}" by (rule inj_on_of_nat_rat)
  have p: "PaymentRules ?s"
    by (rule PaymentRules_complete) (simp_all add: example_input_def)
  have e: "inputs ?s = \<lparr> paymentAddress = of_nat 1413697727, paymentAmount = of_nat 75,
      paymentTimestamp = of_nat 14, allowedAddress1 = of_nat 1413697727,
      allowedAddress2 = of_nat 20, allowedAddress3 = of_nat 0, in_maxAmount = of_nat 100,
      minHour = of_nat 9, maxHour = of_nat 18 \<rparr>"
    by (simp add: PaymentRules_witness_def example_input_def Let_def)
  from C1_PaymentRules_outputs [of ?s 75 100 14 9 18, OF i _ _ _ _ _ _ _ _ _ _ p] e
  have "out_addressValid ?s = 1 \<and> out_amountValid ?s = 1 \<and> out_timeValid ?s = 1
        \<and> out_isValid ?s = 1"
    by simp
  with i p show ?thesis by simp
qed

lemma LessThan_out_eq:
  assumes "a < 2 ^ n" "b \<le> 2 ^ n"
  shows "(LessThan_out n a b :: 'a::field) = of_bool (a < b)"
proof -
  let ?v = "a + 2 ^ n - b"
  have v: "?v < 2 ^ (n + 1)" using assms by simp
  have "(LessThan_out n a b :: 'a) = 1 - of_bool (bit ?v n)"
    by (simp add: LessThan_out_def LessThan_bits_def Num2Bits_out_def nth_append)
  also have "bit ?v n = (2 ^ n \<le> ?v)" using v by (rule top_bit)
  also have "\<dots> = (b \<le> a)" using assms by auto
  finally show ?thesis by (cases "a < b") auto
qed

lemma IntegerDivision_complete:
  assumes "a < 2 ^ n" "0 < d" "d \<le> 2 ^ n"
  shows "IntegerDivision n (IntegerDivision_witness n a d :: 'a::field IntegerDivision_signals)"
proof -
  have r1: "a mod d < d" using assms(2) by simp
  from r1 assms(3) have r2: "a mod d < 2 ^ n" by (rule less_le_trans)
  then have r3: "a mod d + 1 \<le> 2 ^ n" by simp
  note r = r1 r2 r3
  have e: "(of_nat a :: 'a) = of_nat (a div d) * of_nat d + of_nat (a mod d)"
    by (simp flip: of_nat_mult of_nat_add)
  have l: "LessThan n (of_nat (a mod d) :: 'a) (of_nat d) (LessThan_bits n (a mod d) d)
      (LessThan_out n (a mod d) d)"
    using r(2) assms(3) by (rule LessThan_complete)
  have g: "GreaterEqThan n (of_nat (a mod d) :: 'a) 0 (LessThan_bits n 0 (a mod d + 1))
      (LessThan_out n 0 (a mod d + 1))"
    using LessThan_complete [of 0 n "a mod d + 1", where 'a = 'a] r(3)
    by (simp add: GreaterEqThan_def add.commute)
  have o: "(LessThan_out n (a mod d) d :: 'a) = 1" "(LessThan_out n 0 (a mod d + 1) :: 'a) = 1"
    using r assms by (simp_all add: LessThan_out_eq)
  from e l g o show ?thesis
    by (simp add: IntegerDivision_def IntegerDivision_witness_def Let_def)
qed

lemma IntegerDivision_sound:
  fixes s :: "'a::field IntegerDivision_signals"
  assumes inj: "inj_on (of_nat :: nat \<Rightarrow> 'a) {..<2 ^ (n + 1)}"
    and d: "divisor s = of_nat d" "d \<le> 2 ^ n"
    and c: "IntegerDivision n s"
  shows "\<exists>r. remainder s = of_nat r \<and> r < d \<and> dividend s = quotient s * of_nat d + of_nat r"
proof -
  from c have e: "dividend s = quotient s * divisor s + remainder s"
    and l: "LessThan n (remainder s) (divisor s) (lt_bits s) 1"
    and g: "Num2Bits (n + 1) (0 + 2 ^ n - (remainder s + 1)) (ge_bits s)"
           "ge_bits s ! n = 0"
    by (auto simp: IntegerDivision_def GreaterEqThan_def LessThan_def)
  from Num2Bits_value [OF g(1)] obtain m where
    m: "m < 2 ^ (n + 1)" "0 + 2 ^ n - (remainder s + 1) = (of_nat m :: 'a)"
       "\<forall>i<n + 1. ge_bits s ! i = of_bool (bit m i)"
    by blast
  from m(3) g(2) have "\<not> bit m n" by (auto split: if_splits)
  with top_bit [OF m(1)] have mn: "m < 2 ^ n" by simp
  let ?r = "2 ^ n - 1 - m"
  have "remainder s = 2 ^ n - 1 - of_nat m" using m(2) by (simp add: algebra_simps)
  also have "\<dots> = of_nat ?r" using mn by simp
  finally have r: "remainder s = of_nat ?r" .
  have rn: "?r < 2 ^ n" by simp
  from LessThan_sound [OF inj rn d(2) l [unfolded r d(1)]] have "?r < d"
    by (auto split: if_splits)
  with r e d(1) show ?thesis by auto
qed

lemma forged_division_accepted:
  "(2::'a::field) \<noteq> 0 \<Longrightarrow> IntegerDivision 4 (forged_division :: 'a IntegerDivision_signals)"
  by (simp add: IntegerDivision_def forged_division_def LessThan_def GreaterEqThan_def
      Num2Bits_def)

text \<open>
  C9. The division template is claimed to pin quotient and remainder down to the integer
  division: any supplied pair violating dividend = quotient * divisor + remainder or
  0 \<le> remainder < divisor is rejected. The witness the circuit computes is accepted
  (\<open>IntegerDivision_complete\<close>) and the remainder is forced into [0, divisor)
  (\<open>IntegerDivision_sound\<close>), but the product is constrained in the field only and the
  quotient is never range-checked: in every field where 2 is not 0, the 4-bit division
  accepts remainder 0 for 7 divided by 2, with the field element 7/2 as quotient, although
  no natural number q satisfies 7 = q * 2 + 0.
\<close>

theorem C9_forged_division_accepted:
  assumes "(2::'a::field) \<noteq> 0"
  shows "IntegerDivision 4 (forged_division :: 'a IntegerDivision_signals)
         \<and> dividend (forged_division :: 'a IntegerDivision_signals) = of_nat 7
         \<and> divisor (forged_division :: 'a IntegerDivision_signals) = of_nat 2
         \<and> remainder (forged_division :: 'a IntegerDivision_signals) = of_nat 0
         \<and> (\<forall>q::nat. 7 \<noteq> q * 2 + 0) \<and> (7::nat) mod 2 = 1"
proof -
  have "(7::nat) \<noteq> q * 2 + 0" for q by presburger
  with forged_division_accepted [OF assms] show ?thesis
    by (simp add: forged_division_def)
qed

theorem C9_forged_division_accepted_witness:
  "(2::rat) \<noteq> 0
   \<and> IntegerDivision 4 (forged_division :: rat IntegerDivision_signals)
   \<and> quotient (forged_division :: rat IntegerDivision_signals) = 7 / 2
   \<and> remainder (forged_division :: rat IntegerDivision_signals) = 0"
  using C9_forged_division_accepted [where 'a = rat]
  by (simp add: forged_division_def)


end
